theory Spec2Isabelle
  imports Main "HOL-Library.AList"
begin

section \<open>JavaScript values, records and queries\<close>

text \<open>
  The drivers store schema-less documents. A value is one of the JavaScript values that a
  record, a query or a read of a property can hold.
  \<^item> \<open>Undefined\<close> is what a read of a property that does not exist yields, and what a
    property holds after \<^verbatim>\<open>_id: this.data[i]._id\<close> when the record had no such field.
  \<^item> \<open>Num n\<close> is the integer \<open>n\<close>. \<^verbatim>\<open>JSON.stringify\<close> prints an integer in decimal when
    it is a safe integer (below \<open>2\<^sup>5\<^sup>3\<close> in magnitude); the model prints every \<open>Num n\<close> so,
    and the statements about printed numbers are restricted to the safe integers. The
    fractions are not part of the model, and there is one zero. \<open>NaN\<close>, \<open>PosInfinity\<close>
    and \<open>NegInfinity\<close> are the numbers that are not finite.
  \<^item> A string is a list of 8-bit code units.
  \<^item> \<open>Obj kvs\<close> is an object whose prototype is \<^verbatim>\<open>Object.prototype\<close>, as an object
    literal, \<^verbatim>\<open>JSON.parse\<close> and \<^verbatim>\<open>yaml.load\<close> make it: the list of its own enumerable
    properties in property order. Two objects with the same properties in another order
    are different values, as they are for \<^verbatim>\<open>JSON.stringify\<close>.
  \<^item> \<open>ObjectPrototype\<close> is the object \<^verbatim>\<open>Object.prototype\<close> itself, which a read of
    \<^verbatim>\<open>__proto__\<close> yields; \<open>Function\<close> stands for a function, which a read of one of the
    methods of \<^verbatim>\<open>Object.prototype\<close> yields.
\<close>

datatype jsval =
    Undefined
  | Null
  | Bool bool
  | Num int
  | NaN
  | PosInfinity
  | NegInfinity
  | Str string
  | Arr "jsval list"
  | Obj "(string \<times> jsval) list"
  | ObjectPrototype
  | Function

text \<open>
  Modelled from the spec: the type declarations \<^verbatim>\<open>Data\<close> and \<^verbatim>\<open>Query\<close> are imported
  from \<^verbatim>\<open>../interfaces/IDriver\<close>, which is not among the sources. The spec describes a
  record and a query as a mapping from string to value.
\<close>

type_synonym Data = "(string \<times> jsval) list"
type_synonym Query = "(string \<times> jsval) list"

text \<open>\<^verbatim>\<open>Object.keys(o)\<close>, \<^verbatim>\<open>Object.entries(o)\<close> and \<^verbatim>\<open>Object.values(o)\<close>.\<close>

definition Object_keys :: "Data \<Rightarrow> string list" where
  "Object_keys obj = map fst obj"

definition Object_entries :: "Data \<Rightarrow> (string \<times> jsval) list" where
  "Object_entries obj = obj"

definition Object_values :: "Data \<Rightarrow> jsval list" where
  "Object_values obj = map snd obj"

text \<open>
  \<^verbatim>\<open>o[key]\<close>. A read takes the own property when there is one (the first binding of the
  key) and goes to the prototype otherwise. \<^verbatim>\<open>Object.prototype\<close> has the accessor
  \<^verbatim>\<open>__proto__\<close>, which yields the prototype of the object that is read, and its methods; no
  property of it is enumerable. \<open>inherited key\<close> is the read of \<open>key\<close> on an object that
  has no own property \<open>key\<close> and whose prototype is \<^verbatim>\<open>Object.prototype\<close>;
  \<open>prototype_own key\<close> is the read on \<^verbatim>\<open>Object.prototype\<close> itself, whose prototype is
  \<^verbatim>\<open>null\<close>. \<open>getProp\<close> is the read on a record, \<open>readProp\<close> the read on any value that the
  matcher passes on as a record.
\<close>

definition prototype_methods :: "string list" where
  "prototype_methods =
     [''constructor'', ''hasOwnProperty'', ''isPrototypeOf'', ''propertyIsEnumerable'',
      ''toLocaleString'', ''toString'', ''valueOf'', ''__defineGetter__'', ''__defineSetter__'',
      ''__lookupGetter__'', ''__lookupSetter__'']"

definition inherited :: "string \<Rightarrow> jsval" where
  "inherited key =
     (if key = ''__proto__'' then ObjectPrototype
      else if key \<in> set prototype_methods then Function
      else Undefined)"

definition prototype_own :: "string \<Rightarrow> jsval" where
  "prototype_own key =
     (if key = ''__proto__'' then Null
      else if key \<in> set prototype_methods then Function
      else Undefined)"

definition getProp :: "Data \<Rightarrow> string \<Rightarrow> jsval" where
  "getProp obj key = (case map_of obj key of None \<Rightarrow> inherited key | Some v \<Rightarrow> v)"

fun readProp :: "jsval \<Rightarrow> string \<Rightarrow> jsval" where
  "readProp (Obj kvs) key = getProp kvs key"
| "readProp ObjectPrototype key = prototype_own key"
| "readProp _ key = Undefined"

text \<open>
  Defining a property, as a member of an object literal does: an existing key keeps its
  place and takes the new value, a new key goes to the end (JavaScript lists the keys that
  are array indices first; the order of the properties matters to \<^verbatim>\<open>JSON.stringify\<close> only,
  not to a read by key). \<open>spread target source\<close> is \<^verbatim>\<open>...source\<close> inside an object
  literal whose properties so far are \<open>target\<close>.
\<close>

definition setProp :: "Data \<Rightarrow> string \<Rightarrow> jsval \<Rightarrow> Data" where
  "setProp obj key v = AList.update key v obj"

definition spread :: "Data \<Rightarrow> Data \<Rightarrow> Data" where
  "spread target source = fold (\<lambda>(key, v) acc. setProp acc key v) (Object_entries source) target"

text \<open>
  \<^verbatim>\<open>Array.isArray(v)\<close> and the test
  \<^verbatim>\<open>typeof v === 'object' && v !== null && !Array.isArray(v)\<close>; \<^verbatim>\<open>typeof\<close> of a function
  is \<^verbatim>\<open>'function'\<close>.
\<close>

fun Array_isArray :: "jsval \<Rightarrow> bool" where
  "Array_isArray (Arr _) = True"
| "Array_isArray _ = False"

fun isPlainObject :: "jsval \<Rightarrow> bool" where
  "isPlainObject (Obj _) = True"
| "isPlainObject ObjectPrototype = True"
| "isPlainObject _ = False"

text \<open>
  \<^verbatim>\<open>a === b\<close>. Primitives are compared by value, and \<^verbatim>\<open>NaN\<close> differs from itself. Arrays,
  objects and functions are compared by identity; the matcher only reaches \<^verbatim>\<open>===\<close> with
  a query value that is a primitive, or an array next to a record value that is not one, so
  the two operands never are the same array or object. A function that a read yields is a
  method of \<^verbatim>\<open>Object.prototype\<close>, which no value of a query without functions is.
\<close>

fun strict_eq :: "jsval \<Rightarrow> jsval \<Rightarrow> bool" where
  "strict_eq (Arr _) _ = False"
| "strict_eq (Obj _) _ = False"
| "strict_eq Function _ = False"
| "strict_eq NaN _ = False"
| "strict_eq a b = (a = b)"

text \<open>JavaScript truthiness, for \<^verbatim>\<open>data._id || this.generateId()\<close>.\<close>

fun truthy :: "jsval \<Rightarrow> bool" where
  "truthy Undefined = False"
| "truthy Null = False"
| "truthy (Bool b) = b"
| "truthy (Num n) = (n \<noteq> 0)"
| "truthy NaN = False"
| "truthy (Str s) = (s \<noteq> [])"
| "truthy _ = True"

text \<open>
  A record read from a decoded document. The element type of the collection is \<^verbatim>\<open>Data\<close>:
  an element of a decoded array that is no mapping lies outside it (the code stores it as
  it is, and a later read of a field of \<^verbatim>\<open>null\<close> throws); the model reads it as a record
  without fields.
\<close>

fun as_data :: "jsval \<Rightarrow> Data" where
  "as_data (Obj kvs) = kvs"
| "as_data _ = []"

section \<open>\<^verbatim>\<open>JSON.stringify\<close>\<close>

definition digit_char :: "nat \<Rightarrow> char" where
  "digit_char d = ''0123456789abcdef'' ! d"

fun show_nat :: "nat \<Rightarrow> string" where
  "show_nat n = (if n < 10 then [digit_char n] else show_nat (n div 10) @ [digit_char (n mod 10)])"

declare show_nat.simps [simp del]

definition show_int :: "int \<Rightarrow> string" where
  "show_int i = (if i < 0 then CHR ''-'' # show_nat (nat (- i)) else show_nat (nat i))"

text \<open>
  \<^verbatim>\<open>QuoteJSONString\<close>: the quote, the backslash and five control characters have a
  two-character escape (\<^verbatim>\<open>\" \\ \b \t \n \f \r\<close>), the other control characters are
  written \<^verbatim>\<open>\u00XX\<close>, every other code unit stands for itself.
\<close>

definition single_escapes :: "(char \<times> char) list" where
  "single_escapes =
     [(CHR 0x22, CHR 0x22), (CHR 0x5C, CHR 0x5C), (CHR 0x08, CHR ''b''), (CHR 0x09, CHR ''t''),
      (CHR 0x0A, CHR ''n''), (CHR 0x0C, CHR ''f''), (CHR 0x0D, CHR ''r'')]"

definition escape_char :: "char \<Rightarrow> string" where
  "escape_char c =
     (case map_of single_escapes c of
        Some e \<Rightarrow> [CHR 0x5C, e]
      | None \<Rightarrow>
          if (of_char c :: nat) < 32
          then [CHR 0x5C, CHR ''u'', CHR ''0'', CHR ''0'',
                digit_char (of_char c div 16), digit_char (of_char c mod 16)]
          else [c])"

definition quote :: "string \<Rightarrow> string" where
  "quote s = CHR 0x22 # concat (map escape_char s) @ [CHR 0x22]"

fun join :: "string \<Rightarrow> string list \<Rightarrow> string" where
  "join sep [] = []"
| "join sep [x] = x"
| "join sep (x # y # ys) = x @ sep @ join sep (y # ys)"

text \<open>
  \<^verbatim>\<open>JSON.stringify(v)\<close> without indentation. The result is \<^verbatim>\<open>undefined\<close> (\<open>None\<close>) for
  \<^verbatim>\<open>undefined\<close> and for a function; inside an array these are written \<^verbatim>\<open>null\<close>, inside
  an object a property holding one is left out. A number that is not finite is written
  \<^verbatim>\<open>null\<close>. \<^verbatim>\<open>Object.prototype\<close> has no enumerable property and is written \<^verbatim>\<open>{}\<close>.
\<close>

fun JSON_stringify :: "jsval \<Rightarrow> string option" where
  "JSON_stringify Undefined = None"
| "JSON_stringify Function = None"
| "JSON_stringify Null = Some ''null''"
| "JSON_stringify (Bool b) = Some (if b then ''true'' else ''false'')"
| "JSON_stringify (Num n) = Some (show_int n)"
| "JSON_stringify NaN = Some ''null''"
| "JSON_stringify PosInfinity = Some ''null''"
| "JSON_stringify NegInfinity = Some ''null''"
| "JSON_stringify ObjectPrototype = Some ''{}''"
| "JSON_stringify (Str s) = Some (quote s)"
| "JSON_stringify (Arr vs) =
     Some (''['' @ join '','' (map (\<lambda>v. case JSON_stringify v of None \<Rightarrow> ''null'' | Some s \<Rightarrow> s) vs) @ '']'')"
| "JSON_stringify (Obj kvs) =
     Some (''{'' @ join '','' (concat (map (\<lambda>(k, v). case JSON_stringify v of None \<Rightarrow> []
                                                  | Some s \<Rightarrow> [quote k @ '':'' @ s]) kvs)) @ ''}'')"

section \<open>The predicate matchers\<close>

text \<open>
  \<^verbatim>\<open>JSONDriver.matches\<close> (first version of \<^verbatim>\<open>JSONDriver.ts\<close>) and
  \<^verbatim>\<open>JSONDriver.matchesQuery\<close> (second version) have the same body.
  \<^verbatim>\<open>Object.keys(query).every(key => ...)\<close> reads \<^verbatim>\<open>query[key]\<close> for each own key, which
  is a traversal of the entries of the query. The recursive call passes on the value read
  from the record, which is an object of the record or, after a read of \<^verbatim>\<open>__proto__\<close>,
  \<^verbatim>\<open>Object.prototype\<close>; \<open>matches_obj\<close> is the method on any such value and \<open>matches\<close> the
  call on a record of the collection. A query value that is \<^verbatim>\<open>Object.prototype\<close> has no
  own key, so the recursive call on it returns true at once.
\<close>

function matches_obj :: "jsval \<Rightarrow> Query \<Rightarrow> bool" where
  "matches_obj rcd query =
     (if length (Object_keys query) = 0 then True
      else list_all (\<lambda>(key, queryValue).
             (let recordValue = readProp rcd key in
              (case queryValue of
                 Obj q \<Rightarrow> (if isPlainObject recordValue then matches_obj recordValue q else False)
               | ObjectPrototype \<Rightarrow> (if isPlainObject recordValue then True else False)
               | _ \<Rightarrow>
                 if Array_isArray queryValue \<and> Array_isArray recordValue then
                   JSON_stringify queryValue = JSON_stringify recordValue
                 else strict_eq recordValue queryValue)))
           (Object_entries query))"
  by pat_completeness auto
termination
  by (lexicographic_order simp: Object_entries_def)

declare matches_obj.simps [simp del]

definition matches :: "Data \<Rightarrow> Query \<Rightarrow> bool" where
  "matches record query = matches_obj (Obj record) query"

text \<open>
  \<^verbatim>\<open>YAMLDriver.matchesQuery\<close> (the same in \<^verbatim>\<open>YAMLDriver.ts\<close> and in
  \<^verbatim>\<open>unnamed/part_000\<close>): a loop over the entries of the query that returns false at the
  first key whose values print differently.
\<close>

fun matchesQuery_loop :: "Data \<Rightarrow> (string \<times> jsval) list \<Rightarrow> bool" where
  "matchesQuery_loop record [] = True"
| "matchesQuery_loop record ((key, v) # rest) =
     (if JSON_stringify (getProp record key) \<noteq> JSON_stringify v then False
      else matchesQuery_loop record rest)"

definition matchesQuery :: "Data \<Rightarrow> Query \<Rightarrow> bool" where
  "matchesQuery record query = matchesQuery_loop record (Object_entries query)"

section \<open>Files, errors and the environment\<close>

text \<open>
  The text codecs (\<^verbatim>\<open>JSON.parse\<close>, \<^verbatim>\<open>yaml.load\<close>, \<^verbatim>\<open>yaml.dump\<close>), the file system and
  the atomic writer are libraries. Reading and decoding the backing file has four outcomes:
  the file is absent (\<^verbatim>\<open>ENOENT\<close>, \<^verbatim>\<open>existsSync\<close> false), the read fails otherwise,
  the decoder rejects the text, or the text decodes to a value. \<^verbatim>\<open>writer.write\<close> and
  \<^verbatim>\<open>mkdir\<close> are taken to succeed. After a write of the collection the file is
  characterised by the collection that was written, \<open>snapshot\<close>; what a codec does to the
  values that have no text of their own (a property holding \<^verbatim>\<open>undefined\<close> is left out) is
  not modelled.
\<close>

datatype disk = Missing | Unreadable | Malformed | Doc jsval

datatype error = NotConnected | ParseError | IOError | TypeError

definition snapshot :: "Data list \<Rightarrow> disk" where
  "snapshot records = Doc (Arr (map Obj records))"

text \<open>\<^verbatim>\<open>this.data = parsed\<close> for an array \<open>parsed\<close>.\<close>

fun array_records :: "jsval \<Rightarrow> Data list" where
  "array_records (Arr vs) = map as_data vs"
| "array_records _ = []"

text \<open>
  \<^verbatim>\<open>v.records\<close> (a \<^verbatim>\<open>TypeError\<close> on \<^verbatim>\<open>null\<close>), \<^verbatim>\<open>typeof v === 'object'\<close> and
  \<^verbatim>\<open>Object.values(v)\<close> on a decoded value.
\<close>

fun member :: "jsval \<Rightarrow> string \<Rightarrow> error + jsval" where
  "member Undefined key = Inl TypeError"
| "member Null key = Inl TypeError"
| "member (Obj kvs) key = Inr (getProp kvs key)"
| "member _ key = Inr Undefined"

fun typeof_object :: "jsval \<Rightarrow> bool" where
  "typeof_object Null = True"
| "typeof_object (Arr _) = True"
| "typeof_object (Obj _) = True"
| "typeof_object _ = False"

fun values_of :: "jsval \<Rightarrow> jsval list" where
  "values_of (Obj kvs) = Object_values kvs"
| "values_of (Arr vs) = vs"
| "values_of _ = []"

text \<open>
  The three branches after \<^verbatim>\<open>JSON.parse\<close> in \<^verbatim>\<open>JSONDriver.connect\<close> (the same in both
  versions of the file).
\<close>

definition json_load :: "jsval \<Rightarrow> error + Data list" where
  "json_load parsed =
     (if Array_isArray parsed then Inr (array_records parsed)
      else (case member parsed ''records'' of
              Inl e \<Rightarrow> Inl e
            | Inr recs \<Rightarrow>
                if truthy recs \<and> typeof_object recs then Inr (map as_data (values_of recs))
                else Inr []))"

text \<open>
  The object literals of \<^verbatim>\<open>set\<close> and \<^verbatim>\<open>update\<close>. The arguments \<open>t1\<close>, \<open>t2\<close> and
  \<open>t\<close> are the results of the calls \<^verbatim>\<open>new Date().toISOString()\<close>, in the order in which
  the literal makes them; \<open>gid\<close> is the result of \<^verbatim>\<open>this.generateId()\<close>.
\<close>

definition json_a_record :: "Data \<Rightarrow> string \<Rightarrow> string \<Rightarrow> Data" where
  "json_a_record data t1 t2 =
     setProp (setProp (spread [] data) ''_createdAt'' (Str t1)) ''_updatedAt'' (Str t2)"

definition json_b_record :: "Data \<Rightarrow> string \<Rightarrow> string \<Rightarrow> string \<Rightarrow> Data" where
  "json_b_record data gid t1 t2 =
     setProp (setProp (setProp (spread [] data)
        ''_id'' (if truthy (getProp data ''_id'') then getProp data ''_id'' else Str gid))
        ''_createdAt'' (Str t1)) ''_updatedAt'' (Str t2)"

definition yaml_record :: "Data \<Rightarrow> string \<Rightarrow> string \<Rightarrow> string \<Rightarrow> Data" where
  "yaml_record data gid t1 t2 =
     setProp (setProp (setProp (spread [] data) ''_id'' (Str gid))
        ''_createdAt'' (Str t1)) ''_updatedAt'' (Str t2)"

definition json_merge :: "Data \<Rightarrow> Data \<Rightarrow> string \<Rightarrow> Data" where
  "json_merge record data t = setProp (spread (spread [] record) data) ''_updatedAt'' (Str t)"

definition yaml_merge :: "Data \<Rightarrow> Data \<Rightarrow> string \<Rightarrow> Data" where
  "yaml_merge record data t =
     setProp (setProp (setProp (spread (spread [] record) data)
        ''_id'' (getProp record ''_id''))
        ''_createdAt'' (getProp record ''_createdAt''))
        ''_updatedAt'' (Str t)"

text \<open>
  \<^verbatim>\<open>this.records.map(record => ...)\<close> of \<^verbatim>\<open>JSONDriver.update\<close> with its counter.
  \<open>now i\<close> is the clock reading taken when the record at position \<open>i\<close> is rewritten.
\<close>

fun json_update_map :: "Query \<Rightarrow> Data \<Rightarrow> (nat \<Rightarrow> string) \<Rightarrow> nat \<Rightarrow> nat \<Rightarrow> Data list
    \<Rightarrow> Data list \<times> nat" where
  "json_update_map query data now i count [] = ([], count)"
| "json_update_map query data now i count (record # rest) =
     (if matches record query then
        (let (rest', count') = json_update_map query data now (Suc i) (count + 1) rest
         in (json_merge record data (now i) # rest', count'))
      else
        (let (rest', count') = json_update_map query data now (Suc i) count rest
         in (record # rest', count')))"

text \<open>The \<^verbatim>\<open>for\<close> loop of \<^verbatim>\<open>YAMLDriver.update\<close>, which assigns to \<^verbatim>\<open>this.data[i]\<close>.\<close>

function yaml_update_loop :: "Query \<Rightarrow> Data \<Rightarrow> (nat \<Rightarrow> string) \<Rightarrow> nat \<Rightarrow> nat \<Rightarrow> Data list
    \<Rightarrow> Data list \<times> nat" where
  "yaml_update_loop query data now i count ds =
     (if i < length ds then
        (if matchesQuery (ds ! i) query
         then yaml_update_loop query data now (i + 1) (count + 1)
                (ds[i := yaml_merge (ds ! i) data (now i)])
         else yaml_update_loop query data now (i + 1) count ds)
      else (ds, count))"
  by pat_completeness auto
termination
  by (relation "measure (\<lambda>(query, data, now, i, count, ds). length ds - i)") auto

declare yaml_update_loop.simps [simp del]

section \<open>\<^verbatim>\<open>JSONDriver\<close>, first version of \<^verbatim>\<open>src/drivers/JSONDriver.ts\<close>\<close>

text \<open>
  The class has the fields \<^verbatim>\<open>records\<close> and \<^verbatim>\<open>autoSave\<close> and no connection flag. The
  state of the model carries the backing file next to the fields of the instance. Every
  operation returns its outcome (\<open>Inl\<close> for a thrown error) and the state it leaves.
\<close>

record json_a =
  ja_records :: "Data list"
  ja_autoSave :: bool
  ja_disk :: disk

definition ja_new :: "bool \<Rightarrow> disk \<Rightarrow> json_a" where
  "ja_new autoSave f = \<lparr>ja_records = [], ja_autoSave = autoSave, ja_disk = f\<rparr>"

definition ja_persist :: "json_a \<Rightarrow> json_a" where
  "ja_persist d = d\<lparr>ja_disk := snapshot (ja_records d)\<rparr>"

definition ja_connect :: "json_a \<Rightarrow> (error + unit) \<times> json_a" where
  "ja_connect d =
     (case ja_disk d of
        Doc parsed \<Rightarrow>
          (case json_load parsed of
             Inl e \<Rightarrow> (Inl e, d)
           | Inr recs \<Rightarrow> (Inr (), d\<lparr>ja_records := recs\<rparr>))
      | Malformed \<Rightarrow> (Inl ParseError, d)
      | Missing \<Rightarrow>
          (let d1 = d\<lparr>ja_records := []\<rparr>
           in (Inr (), if ja_autoSave d1 then ja_persist d1 else d1))
      | Unreadable \<Rightarrow> (Inl IOError, d))"

definition ja_disconnect :: "json_a \<Rightarrow> (error + unit) \<times> json_a" where
  "ja_disconnect d = (Inr (), (ja_persist d)\<lparr>ja_records := []\<rparr>)"

definition ja_set :: "Data \<Rightarrow> string \<Rightarrow> string \<Rightarrow> json_a \<Rightarrow> (error + Data) \<times> json_a" where
  "ja_set data t1 t2 d =
     (let record = json_a_record data t1 t2;
          d1 = d\<lparr>ja_records := ja_records d @ [record]\<rparr>
      in (Inr record, if ja_autoSave d1 then ja_persist d1 else d1))"

definition ja_get :: "Query \<Rightarrow> json_a \<Rightarrow> (error + Data list) \<times> json_a" where
  "ja_get query d = (Inr (filter (\<lambda>record. matches record query) (ja_records d)), d)"

definition ja_update :: "Query \<Rightarrow> Data \<Rightarrow> (nat \<Rightarrow> string) \<Rightarrow> json_a \<Rightarrow> (error + nat) \<times> json_a" where
  "ja_update query data now d =
     (let (records', count) = json_update_map query data now 0 0 (ja_records d);
          d1 = d\<lparr>ja_records := records'\<rparr>
      in (Inr count, if count > 0 \<and> ja_autoSave d1 then ja_persist d1 else d1))"

definition ja_delete :: "Query \<Rightarrow> json_a \<Rightarrow> (error + nat) \<times> json_a" where
  "ja_delete query d =
     (let initialLength = length (ja_records d);
          d1 = d\<lparr>ja_records := filter (\<lambda>record. \<not> matches record query) (ja_records d)\<rparr>;
          count = initialLength - length (ja_records d1)
      in (Inr count, if count > 0 \<and> ja_autoSave d1 then ja_persist d1 else d1))"

definition ja_exists :: "Query \<Rightarrow> json_a \<Rightarrow> (error + bool) \<times> json_a" where
  "ja_exists query d = (Inr (list_ex (\<lambda>record. matches record query) (ja_records d)), d)"

definition ja_count :: "Query \<Rightarrow> json_a \<Rightarrow> (error + nat) \<times> json_a" where
  "ja_count query d = (Inr (length (filter (\<lambda>record. matches record query) (ja_records d))), d)"

definition ja_clear :: "json_a \<Rightarrow> (error + unit) \<times> json_a" where
  "ja_clear d =
     (let d1 = d\<lparr>ja_records := []\<rparr>
      in (Inr (), if ja_autoSave d1 then ja_persist d1 else d1))"

section \<open>\<^verbatim>\<open>JSONDriver\<close>, second version of \<^verbatim>\<open>src/drivers/JSONDriver.ts\<close>\<close>

text \<open>
  The class has the fields \<^verbatim>\<open>data\<close> and \<^verbatim>\<open>isConnected\<close> and no \<^verbatim>\<open>autoSave\<close>.
  \<^verbatim>\<open>ensureConnected()\<close> is the first statement of every operation but \<^verbatim>\<open>connect\<close>,
  \<^verbatim>\<open>disconnect\<close> and the getters; it throws, so nothing after it runs.
\<close>

record json_b =
  jb_data :: "Data list"
  jb_isConnected :: bool
  jb_disk :: disk

definition jb_new :: "disk \<Rightarrow> json_b" where
  "jb_new f = \<lparr>jb_data = [], jb_isConnected = False, jb_disk = f\<rparr>"

definition jb_saveToFile :: "json_b \<Rightarrow> json_b" where
  "jb_saveToFile d = d\<lparr>jb_disk := snapshot (jb_data d)\<rparr>"

text \<open>\<^verbatim>\<open>ensureConnected()\<close>: the error it throws, if any.\<close>

definition jb_ensureConnected :: "json_b \<Rightarrow> error option" where
  "jb_ensureConnected d = (if \<not> jb_isConnected d then Some NotConnected else None)"

declare jb_ensureConnected_def [simp]

definition jb_connect :: "json_b \<Rightarrow> (error + unit) \<times> json_b" where
  "jb_connect d =
     (case jb_disk d of
        Doc parsed \<Rightarrow>
          (case json_load parsed of
             Inl e \<Rightarrow> (Inl e, d)
           | Inr recs \<Rightarrow> (Inr (), d\<lparr>jb_data := recs, jb_isConnected := True\<rparr>))
      | Malformed \<Rightarrow> (Inl ParseError, d)
      | Missing \<Rightarrow> (Inr (), (jb_saveToFile (d\<lparr>jb_data := []\<rparr>))\<lparr>jb_isConnected := True\<rparr>)
      | Unreadable \<Rightarrow> (Inl IOError, d))"

definition jb_disconnect :: "json_b \<Rightarrow> (error + unit) \<times> json_b" where
  "jb_disconnect d = (Inr (), d\<lparr>jb_isConnected := False\<rparr>)"

definition jb_set :: "Data \<Rightarrow> string \<Rightarrow> string \<Rightarrow> string \<Rightarrow> json_b \<Rightarrow> (error + Data) \<times> json_b" where
  "jb_set data gid t1 t2 d =
     (case jb_ensureConnected d of
        Some e \<Rightarrow> (Inl e, d)
      | None \<Rightarrow>
        (let record = json_b_record data gid t1 t2
         in (Inr record, jb_saveToFile (d\<lparr>jb_data := jb_data d @ [record]\<rparr>))))"

definition jb_get :: "Query \<Rightarrow> json_b \<Rightarrow> (error + Data list) \<times> json_b" where
  "jb_get query d =
     (case jb_ensureConnected d of
        Some e \<Rightarrow> (Inl e, d)
      | None \<Rightarrow>
        (if length (Object_keys query) = 0 then (Inr (jb_data d), d)
         else (Inr (filter (\<lambda>record. matches record query) (jb_data d)), d)))"

definition jb_update :: "Query \<Rightarrow> Data \<Rightarrow> (nat \<Rightarrow> string) \<Rightarrow> json_b \<Rightarrow> (error + nat) \<times> json_b" where
  "jb_update query data now d =
     (case jb_ensureConnected d of
        Some e \<Rightarrow> (Inl e, d)
      | None \<Rightarrow>
        (let (data', count) = json_update_map query data now 0 0 (jb_data d);
             d1 = d\<lparr>jb_data := data'\<rparr>
         in (Inr count, if count > 0 then jb_saveToFile d1 else d1)))"

definition jb_delete :: "Query \<Rightarrow> json_b \<Rightarrow> (error + nat) \<times> json_b" where
  "jb_delete query d =
     (case jb_ensureConnected d of
        Some e \<Rightarrow> (Inl e, d)
      | None \<Rightarrow>
        (let initialLength = length (jb_data d);
             d1 = d\<lparr>jb_data := filter (\<lambda>record. \<not> matches record query) (jb_data d)\<rparr>;
             count = initialLength - length (jb_data d1)
         in (Inr count, if count > 0 then jb_saveToFile d1 else d1)))"

definition jb_exists :: "Query \<Rightarrow> json_b \<Rightarrow> (error + bool) \<times> json_b" where
  "jb_exists query d =
     (case jb_ensureConnected d of
        Some e \<Rightarrow> (Inl e, d)
      | None \<Rightarrow> (Inr (list_ex (\<lambda>record. matches record query) (jb_data d)), d))"

definition jb_count :: "Query \<Rightarrow> json_b \<Rightarrow> (error + nat) \<times> json_b" where
  "jb_count query d =
     (case jb_ensureConnected d of
        Some e \<Rightarrow> (Inl e, d)
      | None \<Rightarrow>
        (if length (Object_keys query) = 0 then (Inr (length (jb_data d)), d)
         else (Inr (length (filter (\<lambda>record. matches record query) (jb_data d))), d)))"

definition jb_clear :: "json_b \<Rightarrow> (error + unit) \<times> json_b" where
  "jb_clear d =
     (case jb_ensureConnected d of
        Some e \<Rightarrow> (Inl e, d)
      | None \<Rightarrow> (Inr (), jb_saveToFile (d\<lparr>jb_data := []\<rparr>)))"

definition jb_reload :: "json_b \<Rightarrow> (error + unit) \<times> json_b" where
  "jb_reload d =
     (case jb_ensureConnected d of
        Some e \<Rightarrow> (Inl e, d)
      | None \<Rightarrow>
        (case jb_disk d of
           Doc parsed \<Rightarrow>
             (Inr (), d\<lparr>jb_data := (if Array_isArray parsed then array_records parsed else [])\<rparr>)
         | Malformed \<Rightarrow> (Inl ParseError, d)
         | Missing \<Rightarrow> (Inr (), d\<lparr>jb_data := []\<rparr>)
         | Unreadable \<Rightarrow> (Inl IOError, d)))"

text \<open>\<^verbatim>\<open>getAllData()\<close>, which has no connection check, and \<^verbatim>\<open>save()\<close>.\<close>

definition jb_getAllData :: "json_b \<Rightarrow> Data list" where
  "jb_getAllData d = jb_data d"

definition jb_save :: "json_b \<Rightarrow> (error + unit) \<times> json_b" where
  "jb_save d =
     (case jb_ensureConnected d of
        Some e \<Rightarrow> (Inl e, d)
      | None \<Rightarrow> (Inr (), jb_saveToFile d))"

section \<open>\<^verbatim>\<open>YAMLDriver\<close> of \<^verbatim>\<open>src/drivers/YAMLDriver.ts\<close>\<close>

text \<open>The class has the fields \<^verbatim>\<open>data\<close>, \<^verbatim>\<open>isConnected\<close> and \<^verbatim>\<open>autoSave\<close>.\<close>

record yaml_a =
  ya_data :: "Data list"
  ya_isConnected :: bool
  ya_autoSave :: bool
  ya_disk :: disk

definition ya_new :: "bool \<Rightarrow> disk \<Rightarrow> yaml_a" where
  "ya_new autoSave f = \<lparr>ya_data = [], ya_isConnected = False, ya_autoSave = autoSave, ya_disk = f\<rparr>"

definition ya_saveToFile :: "yaml_a \<Rightarrow> yaml_a" where
  "ya_saveToFile d = d\<lparr>ya_disk := snapshot (ya_data d)\<rparr>"

text \<open>\<^verbatim>\<open>ensureConnected()\<close>: the error it throws, if any.\<close>

definition ya_ensureConnected :: "yaml_a \<Rightarrow> error option" where
  "ya_ensureConnected d = (if \<not> ya_isConnected d then Some NotConnected else None)"

declare ya_ensureConnected_def [simp]

definition ya_connect :: "yaml_a \<Rightarrow> (error + unit) \<times> yaml_a" where
  "ya_connect d =
     (case ya_disk d of
        Missing \<Rightarrow> (Inr (), (ya_saveToFile (d\<lparr>ya_data := []\<rparr>))\<lparr>ya_isConnected := True\<rparr>)
      | Unreadable \<Rightarrow> (Inl IOError, d)
      | Malformed \<Rightarrow> (Inr (), d\<lparr>ya_data := [], ya_isConnected := True\<rparr>)
      | Doc parsed \<Rightarrow>
          (Inr (), d\<lparr>ya_data := (if Array_isArray parsed then array_records parsed else []),
                      ya_isConnected := True\<rparr>))"

definition ya_disconnect :: "yaml_a \<Rightarrow> (error + unit) \<times> yaml_a" where
  "ya_disconnect d =
     (Inr (), (if ya_autoSave d then ya_saveToFile d else d)\<lparr>ya_isConnected := False\<rparr>)"

definition ya_set :: "Data \<Rightarrow> string \<Rightarrow> string \<Rightarrow> string \<Rightarrow> yaml_a \<Rightarrow> (error + Data) \<times> yaml_a" where
  "ya_set data gid t1 t2 d =
     (case ya_ensureConnected d of
        Some e \<Rightarrow> (Inl e, d)
      | None \<Rightarrow>
        (let record = yaml_record data gid t1 t2;
             d1 = d\<lparr>ya_data := ya_data d @ [record]\<rparr>
         in (Inr record, if ya_autoSave d1 then ya_saveToFile d1 else d1)))"

definition ya_get :: "Query \<Rightarrow> yaml_a \<Rightarrow> (error + Data list) \<times> yaml_a" where
  "ya_get query d =
     (case ya_ensureConnected d of
        Some e \<Rightarrow> (Inl e, d)
      | None \<Rightarrow>
        (if length (Object_keys query) = 0 then (Inr (ya_data d), d)
         else (Inr (filter (\<lambda>record. matchesQuery record query) (ya_data d)), d)))"

definition ya_update :: "Query \<Rightarrow> Data \<Rightarrow> (nat \<Rightarrow> string) \<Rightarrow> yaml_a \<Rightarrow> (error + nat) \<times> yaml_a" where
  "ya_update query data now d =
     (case ya_ensureConnected d of
        Some e \<Rightarrow> (Inl e, d)
      | None \<Rightarrow>
        (let (data', count) = yaml_update_loop query data now 0 0 (ya_data d);
             d1 = d\<lparr>ya_data := data'\<rparr>
         in (Inr count, if count > 0 \<and> ya_autoSave d1 then ya_saveToFile d1 else d1)))"

definition ya_delete :: "Query \<Rightarrow> yaml_a \<Rightarrow> (error + nat) \<times> yaml_a" where
  "ya_delete query d =
     (case ya_ensureConnected d of
        Some e \<Rightarrow> (Inl e, d)
      | None \<Rightarrow>
        (let beforeLength = length (ya_data d);
             d1 = d\<lparr>ya_data := filter (\<lambda>record. \<not> matchesQuery record query) (ya_data d)\<rparr>;
             count = beforeLength - length (ya_data d1)
         in (Inr count, if count > 0 \<and> ya_autoSave d1 then ya_saveToFile d1 else d1)))"

definition ya_exists :: "Query \<Rightarrow> yaml_a \<Rightarrow> (error + bool) \<times> yaml_a" where
  "ya_exists query d =
     (case ya_ensureConnected d of
        Some e \<Rightarrow> (Inl e, d)
      | None \<Rightarrow> (Inr (list_ex (\<lambda>record. matchesQuery record query) (ya_data d)), d))"

definition ya_count :: "Query \<Rightarrow> yaml_a \<Rightarrow> (error + nat) \<times> yaml_a" where
  "ya_count query d =
     (case ya_ensureConnected d of
        Some e \<Rightarrow> (Inl e, d)
      | None \<Rightarrow>
        (if length (Object_keys query) = 0 then (Inr (length (ya_data d)), d)
         else (Inr (length (filter (\<lambda>record. matchesQuery record query) (ya_data d))), d)))"

definition ya_clear :: "yaml_a \<Rightarrow> (error + unit) \<times> yaml_a" where
  "ya_clear d =
     (case ya_ensureConnected d of
        Some e \<Rightarrow> (Inl e, d)
      | None \<Rightarrow> (Inr (), ya_saveToFile (d\<lparr>ya_data := []\<rparr>)))"

definition ya_reload :: "yaml_a \<Rightarrow> (error + unit) \<times> yaml_a" where
  "ya_reload d =
     (case ya_ensureConnected d of
        Some e \<Rightarrow> (Inl e, d)
      | None \<Rightarrow>
        (case ya_disk d of
           Missing \<Rightarrow> (Inr (), d)
         | Unreadable \<Rightarrow> (Inl IOError, d)
         | Malformed \<Rightarrow> (Inl ParseError, d)
         | Doc parsed \<Rightarrow>
             (Inr (), d\<lparr>ya_data := (if Array_isArray parsed then array_records parsed else [])\<rparr>)))"

text \<open>\<^verbatim>\<open>getAllData()\<close>, which has no connection check, and \<^verbatim>\<open>save()\<close>.\<close>

definition ya_getAllData :: "yaml_a \<Rightarrow> Data list" where
  "ya_getAllData d = ya_data d"

definition ya_save :: "yaml_a \<Rightarrow> (error + unit) \<times> yaml_a" where
  "ya_save d =
     (case ya_ensureConnected d of
        Some e \<Rightarrow> (Inl e, d)
      | None \<Rightarrow> (Inr (), ya_saveToFile d))"

section \<open>\<^verbatim>\<open>YAMLDriver\<close> of \<^verbatim>\<open>unnamed/part_000\<close>\<close>

text \<open>
  The class has the fields \<^verbatim>\<open>data\<close> and \<^verbatim>\<open>isConnected\<close> and no \<^verbatim>\<open>autoSave\<close>; its
  \<^verbatim>\<open>set\<close>, \<^verbatim>\<open>update\<close> and \<^verbatim>\<open>delete\<close> do not call \<^verbatim>\<open>saveToFile\<close>.
\<close>

record yaml_b =
  yb_data :: "Data list"
  yb_isConnected :: bool
  yb_disk :: disk

definition yb_new :: "disk \<Rightarrow> yaml_b" where
  "yb_new f = \<lparr>yb_data = [], yb_isConnected = False, yb_disk = f\<rparr>"

definition yb_saveToFile :: "yaml_b \<Rightarrow> yaml_b" where
  "yb_saveToFile d = d\<lparr>yb_disk := snapshot (yb_data d)\<rparr>"

text \<open>\<^verbatim>\<open>ensureConnected()\<close>: the error it throws, if any.\<close>

definition yb_ensureConnected :: "yaml_b \<Rightarrow> error option" where
  "yb_ensureConnected d = (if \<not> yb_isConnected d then Some NotConnected else None)"

declare yb_ensureConnected_def [simp]

definition yb_connect :: "yaml_b \<Rightarrow> (error + unit) \<times> yaml_b" where
  "yb_connect d =
     (case yb_disk d of
        Doc parsed \<Rightarrow>
          (Inr (), d\<lparr>yb_data := (if Array_isArray parsed then array_records parsed else []),
                      yb_isConnected := True\<rparr>)
      | Malformed \<Rightarrow> (Inr (), d\<lparr>yb_data := [], yb_isConnected := True\<rparr>)
      | Missing \<Rightarrow> (Inr (), (yb_saveToFile (d\<lparr>yb_data := []\<rparr>))\<lparr>yb_isConnected := True\<rparr>)
      | Unreadable \<Rightarrow> (Inl IOError, d))"

definition yb_disconnect :: "yaml_b \<Rightarrow> (error + unit) \<times> yaml_b" where
  "yb_disconnect d = (Inr (), d\<lparr>yb_isConnected := False\<rparr>)"

definition yb_set :: "Data \<Rightarrow> string \<Rightarrow> string \<Rightarrow> string \<Rightarrow> yaml_b \<Rightarrow> (error + Data) \<times> yaml_b" where
  "yb_set data gid t1 t2 d =
     (case yb_ensureConnected d of
        Some e \<Rightarrow> (Inl e, d)
      | None \<Rightarrow>
        (let record = yaml_record data gid t1 t2
         in (Inr record, d\<lparr>yb_data := yb_data d @ [record]\<rparr>)))"

definition yb_get :: "Query \<Rightarrow> yaml_b \<Rightarrow> (error + Data list) \<times> yaml_b" where
  "yb_get query d =
     (case yb_ensureConnected d of
        Some e \<Rightarrow> (Inl e, d)
      | None \<Rightarrow>
        (if length (Object_keys query) = 0 then (Inr (yb_data d), d)
         else (Inr (filter (\<lambda>record. matchesQuery record query) (yb_data d)), d)))"

definition yb_update :: "Query \<Rightarrow> Data \<Rightarrow> (nat \<Rightarrow> string) \<Rightarrow> yaml_b \<Rightarrow> (error + nat) \<times> yaml_b" where
  "yb_update query data now d =
     (case yb_ensureConnected d of
        Some e \<Rightarrow> (Inl e, d)
      | None \<Rightarrow>
        (let (data', count) = yaml_update_loop query data now 0 0 (yb_data d)
         in (Inr count, d\<lparr>yb_data := data'\<rparr>)))"

definition yb_delete :: "Query \<Rightarrow> yaml_b \<Rightarrow> (error + nat) \<times> yaml_b" where
  "yb_delete query d =
     (case yb_ensureConnected d of
        Some e \<Rightarrow> (Inl e, d)
      | None \<Rightarrow>
        (let beforeLength = length (yb_data d);
             d1 = d\<lparr>yb_data := filter (\<lambda>record. \<not> matchesQuery record query) (yb_data d)\<rparr>;
             count = beforeLength - length (yb_data d1)
         in (Inr count, d1)))"

definition yb_exists :: "Query \<Rightarrow> yaml_b \<Rightarrow> (error + bool) \<times> yaml_b" where
  "yb_exists query d =
     (case yb_ensureConnected d of
        Some e \<Rightarrow> (Inl e, d)
      | None \<Rightarrow> (Inr (list_ex (\<lambda>record. matchesQuery record query) (yb_data d)), d))"

definition yb_count :: "Query \<Rightarrow> yaml_b \<Rightarrow> (error + nat) \<times> yaml_b" where
  "yb_count query d =
     (case yb_ensureConnected d of
        Some e \<Rightarrow> (Inl e, d)
      | None \<Rightarrow>
        (if length (Object_keys query) = 0 then (Inr (length (yb_data d)), d)
         else (Inr (length (filter (\<lambda>record. matchesQuery record query) (yb_data d))), d)))"

definition yb_clear :: "yaml_b \<Rightarrow> (error + unit) \<times> yaml_b" where
  "yb_clear d =
     (case yb_ensureConnected d of
        Some e \<Rightarrow> (Inl e, d)
      | None \<Rightarrow> (Inr (), d\<lparr>yb_data := []\<rparr>))"

definition yb_reload :: "yaml_b \<Rightarrow> (error + unit) \<times> yaml_b" where
  "yb_reload d =
     (case yb_ensureConnected d of
        Some e \<Rightarrow> (Inl e, d)
      | None \<Rightarrow>
        (case yb_disk d of
           Missing \<Rightarrow> (Inr (), d)
         | Unreadable \<Rightarrow> (Inl IOError, d)
         | Malformed \<Rightarrow> (Inl ParseError, d)
         | Doc parsed \<Rightarrow>
             (Inr (), d\<lparr>yb_data := (if Array_isArray parsed then array_records parsed else [])\<rparr>)))"

text \<open>\<^verbatim>\<open>getAllData()\<close>, which has no connection check, and \<^verbatim>\<open>save()\<close>.\<close>

definition yb_getAllData :: "yaml_b \<Rightarrow> Data list" where
  "yb_getAllData d = yb_data d"

definition yb_save :: "yaml_b \<Rightarrow> (error + unit) \<times> yaml_b" where
  "yb_save d =
     (case yb_ensureConnected d of
        Some e \<Rightarrow> (Inl e, d)
      | None \<Rightarrow> (Inr (), yb_saveToFile d))"

section \<open>Records as shared objects\<close>

text \<open>
  The arrays \<^verbatim>\<open>this.records\<close> and \<^verbatim>\<open>this.data\<close> hold references to record objects.
  \<^verbatim>\<open>filter\<close> and \<^verbatim>\<open>[...this.data]\<close> build a new array of the same references. Here a
  heap maps a reference to the object it denotes, the array of the store is a list of
  references, and \<open>get_refs\<close> is the body of \<^verbatim>\<open>get\<close> after \<^verbatim>\<open>ensureConnected()\<close>.
  The two YAML versions have the same \<^verbatim>\<open>get\<close>. \<open>assign h r key v\<close> is the heap after the
  caller's statement \<^verbatim>\<open>r[key] = v\<close>.
\<close>

type_synonym ref = nat
type_synonym heap = "ref \<Rightarrow> Data"

definition ja_get_refs :: "heap \<Rightarrow> Query \<Rightarrow> ref list \<Rightarrow> ref list" where
  "ja_get_refs h query records = filter (\<lambda>record. matches (h record) query) records"

definition jb_get_refs :: "heap \<Rightarrow> Query \<Rightarrow> ref list \<Rightarrow> ref list" where
  "jb_get_refs h query data =
     (if length (Object_keys query) = 0 then data
      else filter (\<lambda>record. matches (h record) query) data)"

definition yaml_get_refs :: "heap \<Rightarrow> Query \<Rightarrow> ref list \<Rightarrow> ref list" where
  "yaml_get_refs h query data =
     (if length (Object_keys query) = 0 then data
      else filter (\<lambda>record. matchesQuery (h record) query) data)"

definition assign :: "heap \<Rightarrow> ref \<Rightarrow> string \<Rightarrow> jsval \<Rightarrow> heap" where
  "assign h r key v = h(r := setProp (h r) key v)"

definition deref :: "heap \<Rightarrow> ref list \<Rightarrow> Data list" where
  "deref h refs = map h refs"

section \<open>The matcher of the specification\<close>

text \<open>
  Equality of values as the specification has them: a mapping is a mapping from string to
  value, so two mappings are equal when they have the same keys and equal values at every
  key, whatever the order of their properties; two lists are equal when they have the same
  length and equal elements at every position; any other two values are equal when they are
  the same.
\<close>

function (sequential) value_eq :: "jsval \<Rightarrow> jsval \<Rightarrow> bool" where
  "value_eq (Arr xs) (Arr ys) =
     (length xs = length ys \<and> list_all (\<lambda>(x, y). value_eq x y) (zip xs ys))"
| "value_eq (Obj a) (Obj b) =
     (set (Object_keys a) = set (Object_keys b) \<and>
      list_all (\<lambda>(key, v). (case map_of b key of None \<Rightarrow> False | Some w \<Rightarrow> value_eq v w)) a)"
| "value_eq x y = (x = y)"
  by pat_completeness auto
termination
proof (relation "measure (\<lambda>(x, y). size x)")
  show "wf (measure (\<lambda>(x, y). size x))" by simp
next
  fix xs ys :: "jsval list" and z :: "jsval \<times> jsval" and x y
  assume "z \<in> set (zip xs ys)" and "(x, y) = z"
  then have "x \<in> set xs" by (metis set_zip_leftD)
  then have "size x \<le> size_list size xs" by (rule size_list_estimation') simp
  then show "((x, y), Arr xs, Arr ys) \<in> measure (\<lambda>(x, y). size x)" by simp
next
  fix a b :: "(string \<times> jsval) list" and z :: "string \<times> jsval" and key v w
  assume "z \<in> set a" and "(key, v) = z" and "map_of b key = Some w"
  then have "(key, v) \<in> set a" by simp
  then have "size_prod (\<lambda>x. 0) size (key, v) \<le> size_list (size_prod (\<lambda>x. 0) size) a"
    by (rule size_list_estimation') simp
  then show "((v, w), Obj a, Obj b) \<in> measure (\<lambda>(x, y). size x)" by simp
qed

text \<open>
  The predicate matcher as the specification words it: an empty query matches; otherwise
  every key of the query must match. A missing field does not match. A mapping in the
  query matches a mapping in the record as a subset specification and nothing else; a list
  matches a list that is exactly equal; any other value matches by equality. The equality
  \<open>eq\<close> of values is a parameter: \<open>spec_matches\<close>, the matcher of the specification, takes
  the equality of its values, \<open>value_eq\<close>.
\<close>

function spec_matches_by :: "(jsval \<Rightarrow> jsval \<Rightarrow> bool) \<Rightarrow> Data \<Rightarrow> Query \<Rightarrow> bool" where
  "spec_matches_by eq record query =
     (query = [] \<or>
      list_all (\<lambda>(key, qv).
        (case map_of record key of
           None \<Rightarrow> False
         | Some rv \<Rightarrow>
             (case qv of
                Obj q \<Rightarrow> (case rv of Obj r \<Rightarrow> spec_matches_by eq r q | _ \<Rightarrow> False)
              | Arr ql \<Rightarrow> (case rv of Arr rl \<Rightarrow> eq rv qv | _ \<Rightarrow> False)
              | _ \<Rightarrow> eq rv qv))) query)"
  by pat_completeness auto
termination
  by lexicographic_order

declare spec_matches_by.simps [simp del]

definition spec_matches :: "Data \<Rightarrow> Query \<Rightarrow> bool" where
  "spec_matches record query = spec_matches_by value_eq record query"

text \<open>
  What the code compares where the specification says equal: the texts that
  \<^verbatim>\<open>JSON.stringify\<close> prints. On the values below these are equal exactly when the values
  are identical, the order of the properties of every mapping in them included;
  \<open>identical\<close> is that comparison, and \<open>identical_fields\<close> says that every key of the
  query is a field of the record that holds the identical value.
\<close>

definition identical :: "jsval \<Rightarrow> jsval \<Rightarrow> bool" where
  "identical v w = (v = w)"

definition identical_fields :: "Data \<Rightarrow> Query \<Rightarrow> bool" where
  "identical_fields record query =
     list_all (\<lambda>(key, qv). (case map_of record key of None \<Rightarrow> False | Some rv \<Rightarrow> identical rv qv)) query"

section \<open>The values of JSON\<close>

text \<open>
  The values of the specification are null, the booleans, the numbers, the strings, the
  lists and the mappings. \<open>is_json\<close> holds of the values of the model among them that a
  JSON text denotes: \<^verbatim>\<open>undefined\<close>, a function, \<^verbatim>\<open>Object.prototype\<close> and the numbers that
  are not finite occur nowhere in them, every number is a safe integer, and no key occurs
  twice among the properties of a mapping. \<open>proto_free\<close> says that no mapping in a value
  has the key \<^verbatim>\<open>__proto__\<close>. \<open>is_object\<close> says of a record that no key occurs twice among
  its properties, as in every JavaScript object.
\<close>

definition safe_integer :: "int \<Rightarrow> bool" where
  "safe_integer n = (- 9007199254740992 < n \<and> n < 9007199254740992)"

fun is_json :: "jsval \<Rightarrow> bool" where
  "is_json Null = True"
| "is_json (Bool b) = True"
| "is_json (Num n) = safe_integer n"
| "is_json (Str s) = True"
| "is_json (Arr vs) = list_all is_json vs"
| "is_json (Obj kvs) = (distinct (map fst kvs) \<and> list_all (\<lambda>(k, v). is_json v) kvs)"
| "is_json _ = False"

fun proto_free :: "jsval \<Rightarrow> bool" where
  "proto_free (Arr vs) = list_all proto_free vs"
| "proto_free (Obj kvs) = list_all (\<lambda>(k, v). k \<noteq> ''__proto__'' \<and> proto_free v) kvs"
| "proto_free _ = True"

definition is_object :: "Data \<Rightarrow> bool" where
  "is_object obj = distinct (Object_keys obj)"

text \<open>Auxiliary notions for the proof that \<^verbatim>\<open>JSON.stringify\<close> is injective on the values of JSON.\<close>

definition element_text :: "jsval \<Rightarrow> string" where
  "element_text v = (case JSON_stringify v of None \<Rightarrow> ''null'' | Some s \<Rightarrow> s)"

definition member_text :: "string \<times> jsval \<Rightarrow> string" where
  "member_text p = quote (fst p) @ CHR '':'' # element_text (snd p)"

definition json_body :: "string \<Rightarrow> string" where
  "json_body s = concat (map escape_char s)"

definition delimited :: "string \<Rightarrow> bool" where
  "delimited r = (case r of [] \<Rightarrow> True | c # _ \<Rightarrow> c \<in> set '',]}'')"

definition numchar :: "char \<Rightarrow> bool" where
  "numchar c = (c \<in> set ''-0123456789'')"

fun kind :: "jsval \<Rightarrow> nat" where
  "kind Undefined = 0"
| "kind Null = 1"
| "kind (Bool b) = (if b then 2 else 3)"
| "kind (Num _) = 4"
| "kind (Str _) = 5"
| "kind (Arr _) = 6"
| "kind (Obj _) = 7"
| "kind _ = 0"

definition head_kind :: "char \<Rightarrow> nat" where
  "head_kind c =
     (if c = CHR ''n'' then 1 else if c = CHR ''t'' then 2 else if c = CHR ''f'' then 3
      else if numchar c then 4 else if c = CHR 0x22 then 5 else if c = CHR ''['' then 6
      else if c = CHR ''{'' then 7 else 0)"

section \<open>The operations as the specification words them\<close>

text \<open>
  The field \<open>key\<close> of a record after an update with \<open>patch\<close> at clock reading \<open>t\<close>, as the
  specification words it: \<^verbatim>\<open>_updatedAt\<close> is the clock reading, the fields of the patch
  overwrite, the other fields are retained; \<open>protected\<close> says whether \<^verbatim>\<open>_id\<close> and
  \<^verbatim>\<open>_createdAt\<close> keep their prior values whatever the patch holds.
\<close>

definition spec_merged_field :: "bool \<Rightarrow> Data \<Rightarrow> Data \<Rightarrow> string \<Rightarrow> string \<Rightarrow> jsval" where
  "spec_merged_field protected rcd patch t key =
     (if key = ''_updatedAt'' then Str t
      else if protected \<and> (key = ''_id'' \<or> key = ''_createdAt'') then getProp rcd key
      else if key \<in> set (Object_keys patch) then getProp patch key
      else getProp rcd key)"

text \<open>
  The collection after an update: the record at each position is replaced by its merge when
  it matches and is left as it is otherwise; \<open>now i\<close> is the clock reading for position \<open>i\<close>.
\<close>

definition spec_update :: "(Data \<Rightarrow> bool) \<Rightarrow> (Data \<Rightarrow> string \<Rightarrow> Data) \<Rightarrow> (nat \<Rightarrow> string) \<Rightarrow> Data list \<Rightarrow> Data list" where
  "spec_update matching merge now rs =
     map (\<lambda>(i, r). if matching r then merge r (now i) else r) (enumerate 0 rs)"

text \<open>
  The field \<open>key\<close> of the record that an insertion of \<open>inp\<close> stores: the two timestamps are
  the clock readings, \<^verbatim>\<open>_id\<close> is \<open>v\<close> when the driver assigns \<open>Some v\<close> and the field of
  the input when it assigns none, every other field is the field of the input.
\<close>

definition spec_inserted_field :: "jsval option \<Rightarrow> string \<Rightarrow> string \<Rightarrow> Data \<Rightarrow> string \<Rightarrow> jsval" where
  "spec_inserted_field ident t1 t2 inp key =
     (if key = ''_updatedAt'' then Str t2
      else if key = ''_createdAt'' then Str t1
      else if key = ''_id'' then (case ident of Some v \<Rightarrow> v | None \<Rightarrow> getProp inp key)
      else getProp inp key)"

text \<open>
  What a counting operation leaves in the file under saving: the snapshot of the collection
  when the count is positive, the file as it was when the count is zero.
\<close>

definition saved_when_positive :: "(error + nat) \<Rightarrow> disk \<Rightarrow> Data list \<Rightarrow> disk \<Rightarrow> bool" where
  "saved_when_positive outcome before rs after =
     (case outcome of
        Inl e \<Rightarrow> False
      | Inr count \<Rightarrow> after = (if 0 < count then snapshot rs else before))"

text \<open>
  For the examples: a clock that does not advance during a call, and the heap that holds
  the given objects at the references \<open>0\<close>, \<open>1\<close>, ...
\<close>

definition clock_at :: "string \<Rightarrow> nat \<Rightarrow> string" where
  "clock_at t i = t"

definition heap_of :: "Data list \<Rightarrow> heap" where
  "heap_of objs r = (if r < length objs then objs ! r else [])"

section \<open>\<^verbatim>\<open>JSON.stringify\<close> is injective on the values of JSON\<close>

lemma digit_char_inj: "d < 16 \<Longrightarrow> e < 16 \<Longrightarrow> (digit_char d = digit_char e) = (d = e)"
  unfolding digit_char_def by (rule nth_eq_iff_index_eq) simp_all

lemma digit_char_decimal: "d < 10 \<Longrightarrow> digit_char d \<in> set ''0123456789''"
proof -
  assume "d < 10"
  then have "d \<in> {0,1,2,3,4,5,6,7,8,9}" by auto
  then show ?thesis unfolding digit_char_def by auto
qed

lemma show_nat_small: "n < 10 \<Longrightarrow> show_nat n = [digit_char n]"
  by (subst show_nat.simps) simp

lemma show_nat_big: "\<not> n < 10 \<Longrightarrow> show_nat n = show_nat (n div 10) @ [digit_char (n mod 10)]"
  by (subst show_nat.simps) simp

lemma show_nat_nonempty: "show_nat n \<noteq> []"
  by (cases "n < 10") (simp_all add: show_nat_small show_nat_big)

lemma show_nat_digits: "set (show_nat n) \<subseteq> set ''0123456789''"
proof (induction n rule: show_nat.induct)
  case (1 n)
  show ?case
  proof (cases "n < 10")
    case True
    then show ?thesis using digit_char_decimal[of n] by (simp add: show_nat_small)
  next
    case False
    have "n mod 10 < 10" by simp
    then have "digit_char (n mod 10) \<in> set ''0123456789''" by (rule digit_char_decimal)
    with False 1 show ?thesis by (simp add: show_nat_big)
  qed
qed

lemma show_nat_inj: "show_nat n = show_nat m \<Longrightarrow> n = m"
proof (induction n arbitrary: m rule: show_nat.induct)
  case (1 n)
  show ?case
  proof (cases "n < 10")
    case n: True
    show ?thesis
    proof (cases "m < 10")
      case True
      with n 1(2) have "digit_char n = digit_char m" by (simp add: show_nat_small)
      with n True show ?thesis by (simp add: digit_char_inj)
    next
      case False
      with n 1(2) have "[digit_char n] = show_nat (m div 10) @ [digit_char (m mod 10)]"
        by (simp add: show_nat_small show_nat_big)
      then show ?thesis using show_nat_nonempty[of "m div 10"] by simp
    qed
  next
    case n: False
    show ?thesis
    proof (cases "m < 10")
      case True
      with n 1(2) have "show_nat (n div 10) @ [digit_char (n mod 10)] = [digit_char m]"
        by (simp add: show_nat_small show_nat_big)
      then show ?thesis using show_nat_nonempty[of "n div 10"] by simp
    next
      case False
      from n False 1(2) have "show_nat (n div 10) @ [digit_char (n mod 10)] = show_nat (m div 10) @ [digit_char (m mod 10)]"
        by (simp add: show_nat_big)
      then have a: "show_nat (n div 10) = show_nat (m div 10)" and b: "digit_char (n mod 10) = digit_char (m mod 10)"
        by simp_all
      from 1(1)[OF n a] have "n div 10 = m div 10" .
      moreover from b have "n mod 10 = m mod 10" by (simp add: digit_char_inj)
      ultimately show ?thesis by (metis div_mult_mod_eq)
    qed
  qed
qed

lemma show_int_inj: "show_int i = show_int j \<Longrightarrow> i = j"
proof -
  assume a: "show_int i = show_int j"
  have nd: "\<And>n. hd (show_nat n) \<noteq> CHR ''-''"
  proof -
    fix n
    have "hd (show_nat n) \<in> set (show_nat n)" using show_nat_nonempty by simp
    then have "hd (show_nat n) \<in> set ''0123456789''" using show_nat_digits by blast
    then show "hd (show_nat n) \<noteq> CHR ''-''" by auto
  qed
  show ?thesis
  proof (cases "i < 0")
    case i: True
    show ?thesis
    proof (cases "j < 0")
      case True
      with i a have "show_nat (nat (- i)) = show_nat (nat (- j))" by (simp add: show_int_def)
      then have "nat (-i) = nat (-j)" by (rule show_nat_inj)
      with i True show ?thesis by simp
    next
      case False
      with i a have "CHR ''-'' # show_nat (nat (- i)) = show_nat (nat j)" by (simp add: show_int_def)
      then have "hd (show_nat (nat j)) = CHR ''-''" by (metis list.sel(1))
      then show ?thesis using nd by simp
    qed
  next
    case i: False
    show ?thesis
    proof (cases "j < 0")
      case True
      with i a have "show_nat (nat i) = CHR ''-'' # show_nat (nat (-j))" by (simp add: show_int_def)
      then have "hd (show_nat (nat i)) = CHR ''-''" by (metis list.sel(1))
      then show ?thesis using nd by simp
    next
      case False
      with i a have "show_nat (nat i) = show_nat (nat j)" by (simp add: show_int_def)
      then have "nat i = nat j" by (rule show_nat_inj)
      with i False show ?thesis by simp
    qed
  qed
qed


lemma numchar_digit: "c \<in> set ''0123456789'' \<Longrightarrow> numchar c"
  unfolding numchar_def by simp

lemma show_nat_numchar: "c \<in> set (show_nat n) \<Longrightarrow> numchar c"
  using show_nat_digits[of n] numchar_digit by blast

lemma show_int_chars: "c \<in> set (show_int i) \<Longrightarrow> numchar c"
proof (cases "i < 0")
  case True
  assume "c \<in> set (show_int i)"
  with True have "c = CHR ''-'' \<or> c \<in> set (show_nat (nat (- i)))" by (simp add: show_int_def)
  moreover have "numchar CHR ''-''" by (simp add: numchar_def)
  ultimately show ?thesis using show_nat_numchar by blast
next
  case False
  assume "c \<in> set (show_int i)"
  with False have "c \<in> set (show_nat (nat i))" by (simp add: show_int_def)
  then show ?thesis by (rule show_nat_numchar)
qed

lemma span_unique:
  "\<forall>c\<in>set xs. P c \<Longrightarrow> \<forall>c\<in>set ys. P c \<Longrightarrow> r = [] \<or> \<not> P (hd r) \<Longrightarrow> r' = [] \<or> \<not> P (hd r')
   \<Longrightarrow> xs @ r = ys @ r' \<Longrightarrow> xs = ys \<and> r = r'"
proof (induction xs arbitrary: ys)
  case Nil
  show ?case
  proof (cases ys)
    case Nil
    with Nil.prems show ?thesis by simp
  next
    case (Cons y t)
    with Nil.prems have "r = y # t @ r'" "P y" by simp_all
    with Nil.prems(3) show ?thesis by simp
  qed
next
  case (Cons x xs)
  show ?case
  proof (cases ys)
    case Nil
    with Cons.prems have "r' = x # xs @ r" "P x" by simp_all
    with Cons.prems(4) show ?thesis by simp
  next
    case c: (Cons y t)
    with Cons.prems have e: "x = y" "xs @ r = t @ r'" by simp_all
    from Cons.prems c have "\<forall>c\<in>set xs. P c" "\<forall>c\<in>set t. P c" by simp_all
    from Cons.IH[OF this Cons.prems(3,4) e(2)] e(1) c show ?thesis by simp
  qed
qed

lemma of_char_div16: "(of_char c :: nat) div 16 < 16"
proof -
  have "(of_char c :: nat) < 256" by simp
  then show ?thesis by arith
qed

lemma hex_pair_inj:
  assumes "digit_char (of_char c div 16) = digit_char (of_char c' div 16)"
    and "digit_char (of_char c mod 16) = digit_char (of_char c' mod 16)"
  shows "c = c'"
proof -
  from assms(1) have "(of_char c :: nat) div 16 = of_char c' div 16"
    by (simp add: digit_char_inj of_char_div16)
  moreover from assms(2) have "(of_char c :: nat) mod 16 = of_char c' mod 16"
    by (simp add: digit_char_inj)
  ultimately have "(of_char c :: nat) = of_char c'" by (metis div_mult_mod_eq)
  then show ?thesis by simp
qed

lemma map_of_inj_values:
  "distinct (map snd t) \<Longrightarrow> map_of t a = Some e \<Longrightarrow> map_of t b = Some e \<Longrightarrow> a = b"
proof (induction t)
  case Nil
  then show ?case by simp
next
  case (Cons p t)
  obtain k v where p: "p = (k, v)" by (cases p)
  from Cons.prems(1) p have nv: "v \<notin> snd ` set t" and dt: "distinct (map snd t)" by auto
  have away: "map_of t x = Some v \<Longrightarrow> False" for x
    using nv map_of_SomeD[of t x v] by force
  show ?case
  proof (cases "a = k")
    case ak: True
    with Cons.prems(2) p have ev: "e = v" by simp
    show ?thesis
    proof (cases "b = k")
      case True
      with ak show ?thesis by simp
    next
      case False
      with Cons.prems(3) p ev have "map_of t b = Some v" by simp
      then show ?thesis using away by blast
    qed
  next
    case ak: False
    with Cons.prems(2) p have ma: "map_of t a = Some e" by simp
    show ?thesis
    proof (cases "b = k")
      case True
      with Cons.prems(3) p have "e = v" by simp
      with ma show ?thesis using away by blast
    next
      case False
      with Cons.prems(3) p have "map_of t b = Some e" by simp
      with Cons.IH[OF dt ma] show ?thesis by simp
    qed
  qed
qed

lemma single_escapes_distinct: "distinct (map snd single_escapes)"
  by (simp add: single_escapes_def)

lemma single_escapes_not_u: "map_of single_escapes c = Some e \<Longrightarrow> e \<noteq> CHR ''u''"
proof -
  assume "map_of single_escapes c = Some e"
  then have "(c, e) \<in> set single_escapes" by (rule map_of_SomeD)
  then show ?thesis by (auto simp: single_escapes_def)
qed

lemma single_escapes_backslash: "map_of single_escapes (CHR 0x5C) = Some (CHR 0x5C)"
  by (simp add: single_escapes_def)

lemma single_escapes_quote: "map_of single_escapes (CHR 0x22) = Some (CHR 0x22)"
  by (simp add: single_escapes_def)

lemma escape_char_shape:
  "(escape_char c = [c] \<and> c \<noteq> CHR 0x5C \<and> c \<noteq> CHR 0x22) \<or> (\<exists>t. escape_char c = CHR 0x5C # t)"
proof (cases "map_of single_escapes c")
  case None
  then have "c \<noteq> CHR 0x5C" "c \<noteq> CHR 0x22"
    using single_escapes_backslash single_escapes_quote by auto
  with None show ?thesis by (simp add: escape_char_def)
next
  case (Some e)
  then show ?thesis by (simp add: escape_char_def)
qed

lemma escape_char_prefix:
  assumes eq: "escape_char c @ x = escape_char c' @ x'"
  shows "c = c' \<and> x = x'"
proof (cases "map_of single_escapes c")
  case (Some e)
  then have ec: "escape_char c = [CHR 0x5C, e]" by (simp add: escape_char_def)
  show ?thesis
  proof (cases "map_of single_escapes c'")
    case s': (Some e')
    then have "escape_char c' = [CHR 0x5C, e']" by (simp add: escape_char_def)
    with ec eq have "e = e'" "x = x'" by simp_all
    with Some s' show ?thesis using map_of_inj_values[OF single_escapes_distinct] by blast
  next
    case n': None
    show ?thesis
    proof (cases "(of_char c' :: nat) < 32")
      case True
      with n' ec eq have "e = CHR ''u''" by (simp add: escape_char_def)
      with Some show ?thesis using single_escapes_not_u by blast
    next
      case False
      with n' ec eq have "c' = CHR 0x5C" by (simp add: escape_char_def)
      with n' show ?thesis using single_escapes_backslash by simp
    qed
  qed
next
  case None
  show ?thesis
  proof (cases "(of_char c :: nat) < 32")
    case u: True
    with None have ec: "escape_char c = [CHR 0x5C, CHR ''u'', CHR ''0'', CHR ''0'',
                digit_char (of_char c div 16), digit_char (of_char c mod 16)]"
      by (simp add: escape_char_def)
    show ?thesis
    proof (cases "map_of single_escapes c'")
      case s': (Some e')
      then have "escape_char c' = [CHR 0x5C, e']" by (simp add: escape_char_def)
      with ec eq have "e' = CHR ''u''" by simp
      with s' show ?thesis using single_escapes_not_u by blast
    next
      case n': None
      show ?thesis
      proof (cases "(of_char c' :: nat) < 32")
        case True
        with n' have "escape_char c' = [CHR 0x5C, CHR ''u'', CHR ''0'', CHR ''0'',
                digit_char (of_char c' div 16), digit_char (of_char c' mod 16)]"
          by (simp add: escape_char_def)
        with ec eq have "digit_char (of_char c div 16) = digit_char (of_char c' div 16)"
          "digit_char (of_char c mod 16) = digit_char (of_char c' mod 16)" "x = x'"
          by simp_all
        then show ?thesis using hex_pair_inj by blast
      next
        case False
        with n' ec eq have "c' = CHR 0x5C" by (simp add: escape_char_def)
        with n' show ?thesis using single_escapes_backslash by simp
      qed
    qed
  next
    case p: False
    with None have ec: "escape_char c = [c]" by (simp add: escape_char_def)
    from None have cb: "c \<noteq> CHR 0x5C" using single_escapes_backslash by auto
    from escape_char_shape[of c'] show ?thesis
    proof
      assume "escape_char c' = [c'] \<and> c' \<noteq> CHR 0x5C \<and> c' \<noteq> CHR 0x22"
      with ec eq show ?thesis by simp
    next
      assume "\<exists>t. escape_char c' = CHR 0x5C # t"
      then obtain t where "escape_char c' = CHR 0x5C # t" ..
      with ec eq have "c = CHR 0x5C" by simp
      with cb show ?thesis by simp
    qed
  qed
qed

lemma quote_body: "quote s = CHR 0x22 # json_body s @ [CHR 0x22]"
  by (simp add: quote_def json_body_def)

lemma json_body_prefix:
  "json_body s @ CHR 0x22 # x = json_body s' @ CHR 0x22 # x' \<Longrightarrow> s = s' \<and> x = x'"
proof (induction s arbitrary: s')
  case Nil
  show ?case
  proof (cases s')
    case Nil
    with Nil.prems show ?thesis by (simp add: json_body_def)
  next
    case (Cons c' t')
    with Nil.prems have e: "CHR 0x22 # x = escape_char c' @ json_body t' @ CHR 0x22 # x'"
      by (simp add: json_body_def)
    from escape_char_shape[of c'] show ?thesis
    proof
      assume "escape_char c' = [c'] \<and> c' \<noteq> CHR 0x5C \<and> c' \<noteq> CHR 0x22"
      with e show ?thesis by simp
    next
      assume "\<exists>t. escape_char c' = CHR 0x5C # t"
      then obtain t where "escape_char c' = CHR 0x5C # t" ..
      with e show ?thesis by simp
    qed
  qed
next
  case (Cons c t)
  show ?case
  proof (cases s')
    case Nil
    with Cons.prems have e: "escape_char c @ json_body t @ CHR 0x22 # x = CHR 0x22 # x'"
      by (simp add: json_body_def)
    from escape_char_shape[of c] show ?thesis
    proof
      assume "escape_char c = [c] \<and> c \<noteq> CHR 0x5C \<and> c \<noteq> CHR 0x22"
      with e show ?thesis by simp
    next
      assume "\<exists>t. escape_char c = CHR 0x5C # t"
      then obtain u where "escape_char c = CHR 0x5C # u" ..
      with e show ?thesis by simp
    qed
  next
    case c': (Cons c' t')
    with Cons.prems have
      "escape_char c @ (json_body t @ CHR 0x22 # x) = escape_char c' @ (json_body t' @ CHR 0x22 # x')"
      by (simp add: json_body_def)
    then have "c = c'" and "json_body t @ CHR 0x22 # x = json_body t' @ CHR 0x22 # x'"
      using escape_char_prefix by blast+
    with Cons.IH[of t'] c' show ?thesis by simp
  qed
qed

lemma quote_prefix: "quote s @ x = quote s' @ x' \<Longrightarrow> s = s' \<and> x = x'"
  using json_body_prefix[of s x s' x'] by (simp add: quote_body)

lemma join_Cons: "join sep (x # xs) = x @ (if xs = [] then [] else sep @ join sep xs)"
  by (cases xs) simp_all

lemma delimited_simps:
  "delimited []" "delimited (CHR '','' # r)" "delimited (CHR '']'' # r)" "delimited (CHR ''}'' # r)"
  by (simp_all add: delimited_def)

lemma join_items_unique:
  assumes elem: "\<And>x y R R'. x \<in> set xs \<Longrightarrow> G y \<Longrightarrow> delimited R \<Longrightarrow> delimited R'
                   \<Longrightarrow> f x @ R = f y @ R' \<Longrightarrow> x = y \<and> R = R'"
    and good: "\<And>x. x \<in> set xs \<Longrightarrow> G x"
    and heads: "\<And>x. G x \<Longrightarrow> f x \<noteq> [] \<and> hd (f x) \<noteq> cl"
    and cl: "cl = CHR '']'' \<or> cl = CHR ''}''"
    and ys: "list_all G ys"
    and eq: "join '','' (map f xs) @ cl # r = join '','' (map f ys) @ cl # r'"
  shows "xs = ys \<and> r = r'"
  using elem good ys eq
proof (induction xs arbitrary: ys)
  case Nil
  show ?case
  proof (cases ys)
    case Nil
    with Nil.prems show ?thesis by simp
  next
    case (Cons y t)
    with Nil.prems(3) have "G y" by simp
    from heads[OF this] obtain c u where fy: "f y = c # u" "c \<noteq> cl" by (cases "f y") auto
    with Nil.prems(4) Cons show ?thesis by (simp add: join_Cons)
  qed
next
  case (Cons x t)
  have gx: "G x" using Cons.prems(2) by simp
  show ?case
  proof (cases ys)
    case Nil
    from heads[OF gx] obtain c u where "f x = c # u" "c \<noteq> cl" by (cases "f x") auto
    with Cons.prems(4) Nil show ?thesis by (simp add: join_Cons)
  next
    case ys: (Cons y t')
    define R where "R = (if t = [] then [] else '','' @ join '','' (map f t)) @ cl # r"
    define R' where "R' = (if t' = [] then [] else '','' @ join '','' (map f t')) @ cl # r'"
    have dR: "delimited R" "delimited R'"
      using cl by (auto simp: R_def R'_def delimited_simps)
    from Cons.prems(4) ys have "f x @ R = f y @ R'"
      by (simp add: join_Cons R_def R'_def)
    moreover from Cons.prems(3) ys have gy: "G y" and gt: "list_all G t'" by simp_all
    ultimately have xy: "x = y" and RR: "R = R'"
      using Cons.prems(1)[of x y R R'] dR by simp_all
    have "t = t' \<and> r = r'"
    proof (cases "t = []")
      case True
      show ?thesis
      proof (cases "t' = []")
        case t': True
        with True RR show ?thesis by (simp add: R_def R'_def)
      next
        case False
        with True RR cl show ?thesis by (auto simp: R_def R'_def)
      qed
    next
      case tn: False
      show ?thesis
      proof (cases "t' = []")
        case True
        with tn RR cl show ?thesis by (auto simp: R_def R'_def)
      next
        case False
        with tn RR have "join '','' (map f t) @ cl # r = join '','' (map f t') @ cl # r'"
          by (simp add: R_def R'_def)
        moreover have "\<And>a b S S'. a \<in> set t \<Longrightarrow> G b \<Longrightarrow> delimited S \<Longrightarrow> delimited S'
                   \<Longrightarrow> f a @ S = f b @ S' \<Longrightarrow> a = b \<and> S = S'"
          using Cons.prems(1) by (meson list.set_intros(2))
        moreover have "\<And>a. a \<in> set t \<Longrightarrow> G a"
          using Cons.prems(2) by (meson list.set_intros(2))
        ultimately show ?thesis
          using gt by (intro Cons.IH)
      qed
    qed
    with xy ys show ?thesis by simp
  qed
qed

lemma is_json_stringify: "is_json v \<Longrightarrow> JSON_stringify v = Some (element_text v)"
  by (cases v) (simp_all add: element_text_def)

lemma element_text_simps:
  "element_text Null = ''null''"
  "element_text (Bool True) = ''true''"
  "element_text (Bool False) = ''false''"
  "element_text (Num n) = show_int n"
  "element_text (Str s) = quote s"
  "element_text (Arr vs) = CHR ''['' # join '','' (map element_text vs) @ '']''"
  by (simp_all add: element_text_def cong: map_cong)

lemma members_of_json:
  "list_all (\<lambda>(k, v). is_json v) kvs \<Longrightarrow>
   concat (map (\<lambda>(k, v). case JSON_stringify v of None \<Rightarrow> [] | Some s \<Rightarrow> [quote k @ '':'' @ s]) kvs)
     = map member_text kvs"
  by (induction kvs) (auto simp: member_text_def is_json_stringify)

lemma element_text_Obj:
  "is_json (Obj kvs) \<Longrightarrow> element_text (Obj kvs) = CHR ''{'' # join '','' (map member_text kvs) @ ''}''"
  by (simp add: element_text_def members_of_json)

lemma show_int_nonempty: "show_int i \<noteq> []"
  using show_nat_nonempty by (simp add: show_int_def)

lemma show_int_head: "\<exists>c t. show_int n = c # t \<and> numchar c"
proof -
  obtain c t where ct: "show_int n = c # t" using show_int_nonempty[of n] by (cases "show_int n") auto
  then have "c \<in> set (show_int n)" by simp
  then have "numchar c" by (rule show_int_chars)
  with ct show ?thesis by blast
qed

lemma numchar_not:
  "numchar c \<Longrightarrow> c \<noteq> CHR ''n'' \<and> c \<noteq> CHR ''t'' \<and> c \<noteq> CHR ''f'' \<and> c \<noteq> CHR 0x22 \<and> c \<noteq> CHR ''[''
     \<and> c \<noteq> CHR ''{'' \<and> c \<noteq> CHR '','' \<and> c \<noteq> CHR '']'' \<and> c \<noteq> CHR ''}''"
  by (auto simp: numchar_def)

lemma delimited_not_numchar: "delimited r \<Longrightarrow> r = [] \<or> \<not> numchar (hd r)"
  by (cases r) (auto simp: delimited_def numchar_def)

lemma head_kind_json:
  assumes "is_json v"
  shows "\<exists>c t. element_text v = c # t \<and> head_kind c = kind v \<and> c \<noteq> CHR '']'' \<and> c \<noteq> CHR ''}''"
proof (cases v)
  case Undefined
  with assms show ?thesis by simp
next
  case Null
  then show ?thesis by (simp add: element_text_simps head_kind_def)
next
  case (Bool b)
  then show ?thesis by (cases b) (simp_all add: element_text_simps head_kind_def)
next
  case (Num n)
  obtain c t where ct: "show_int n = c # t" "numchar c" using show_int_head by blast
  with numchar_not[of c] have "head_kind c = 4" by (simp add: head_kind_def)
  with ct Num numchar_not[of c] show ?thesis by (simp add: element_text_simps)
next
  case (Str s)
  then show ?thesis by (simp add: element_text_simps quote_body head_kind_def numchar_def)
next
  case (Arr vs)
  then show ?thesis by (simp add: element_text_simps head_kind_def numchar_def)
next
  case (Obj kvs)
  with assms show ?thesis by (simp add: element_text_Obj head_kind_def numchar_def)
qed (use assms in simp_all)

lemma same_kind:
  assumes "is_json v" "is_json v'" "element_text v @ r = element_text v' @ r'"
  shows "kind v = kind v'"
proof -
  from head_kind_json[OF assms(1)] obtain c t where a: "element_text v = c # t" "head_kind c = kind v" by blast
  from head_kind_json[OF assms(2)] obtain c' t' where b: "element_text v' = c' # t'" "head_kind c' = kind v'" by blast
  from assms(3) a b have "c = c'" by simp
  with a b show ?thesis by simp
qed

lemma element_text_prefix:
  "is_json v \<Longrightarrow> is_json v' \<Longrightarrow> delimited r \<Longrightarrow> delimited r'
     \<Longrightarrow> element_text v @ r = element_text v' @ r' \<Longrightarrow> v = v' \<and> r = r'"
proof (induction v arbitrary: v' r r')
  case Undefined
  then show ?case by simp
next
  case Null
  from same_kind[OF Null.prems(1,2,5)] have "v' = Null" by (cases v') (simp_all split: if_splits)
  with Null.prems show ?case by (simp add: element_text_simps)
next
  case (Bool b)
  from same_kind[OF Bool.prems(1,2,5)] have "v' = Bool b" by (cases v') (simp_all split: if_splits)
  with Bool.prems show ?case by (cases b) (simp_all add: element_text_simps)
next
  case (Num n)
  from same_kind[OF Num.prems(1,2,5)] obtain m where v': "v' = Num m" by (cases v') (simp_all split: if_splits)
  with Num.prems(5) have e: "show_int n @ r = show_int m @ r'" by (simp add: element_text_simps)
  have "show_int n = show_int m \<and> r = r'"
    by (rule span_unique[where P = numchar, OF _ _ _ _ e])
       (use show_int_chars delimited_not_numchar Num.prems(3,4) in blast)+
  then show ?case using v' show_int_inj by blast
next
  case (Str s)
  from same_kind[OF Str.prems(1,2,5)] obtain s' where v': "v' = Str s'" by (cases v') (simp_all split: if_splits)
  with Str.prems(5) have "quote s @ r = quote s' @ r'" by (simp add: element_text_simps)
  then show ?case using v' quote_prefix by blast
next
  case (Arr vs)
  from same_kind[OF Arr.prems(1,2,5)] obtain vs' where v': "v' = Arr vs'" by (cases v') (simp_all split: if_splits)
  with Arr.prems(5) have e: "join '','' (map element_text vs) @ CHR '']'' # r
      = join '','' (map element_text vs') @ CHR '']'' # r'"
    by (simp add: element_text_simps)
  have j: "\<And>x. x \<in> set vs \<Longrightarrow> is_json x" using Arr.prems(1) by (simp add: list_all_iff)
  have "vs = vs' \<and> r = r'"
  proof (rule join_items_unique[where G = is_json and f = element_text and cl = "CHR '']''", OF _ _ _ _ _ e])
    show "\<And>x y R R'. x \<in> set vs \<Longrightarrow> is_json y \<Longrightarrow> delimited R \<Longrightarrow> delimited R'
           \<Longrightarrow> element_text x @ R = element_text y @ R' \<Longrightarrow> x = y \<and> R = R'"
      using Arr.IH j by blast
    show "\<And>x. x \<in> set vs \<Longrightarrow> is_json x" by (rule j)
    show "\<And>x. is_json x \<Longrightarrow> element_text x \<noteq> [] \<and> hd (element_text x) \<noteq> CHR '']''"
      using head_kind_json by fastforce
    show "CHR '']'' = CHR '']'' \<or> CHR '']'' = CHR ''}''" by simp
    show "list_all is_json vs'" using Arr.prems(2) v' by simp
  qed
  with v' show ?case by simp
next
  case (Obj kvs)
  from same_kind[OF Obj.prems(1,2,5)] obtain kvs' where v': "v' = Obj kvs'" by (cases v') (simp_all split: if_splits)
  with Obj.prems have e: "join '','' (map member_text kvs) @ CHR ''}'' # r
      = join '','' (map member_text kvs') @ CHR ''}'' # r'"
    by (simp add: element_text_Obj)
  have j: "\<And>p. p \<in> set kvs \<Longrightarrow> is_json (snd p)" using Obj.prems(1) by (auto simp: list_all_iff)
  have "kvs = kvs' \<and> r = r'"
  proof (rule join_items_unique[where G = "\<lambda>p. is_json (snd p)" and f = member_text and cl = "CHR ''}''", OF _ _ _ _ _ e])
    show "x = y \<and> R = R'" if "x \<in> set kvs" "is_json (snd y)" "delimited R" "delimited R'"
      "member_text x @ R = member_text y @ R'" for x y R R'
    proof -
      from that(5) have "quote (fst x) @ (CHR '':'' # element_text (snd x) @ R)
                       = quote (fst y) @ (CHR '':'' # element_text (snd y) @ R')"
        by (simp add: member_text_def)
      then have k: "fst x = fst y" and "CHR '':'' # element_text (snd x) @ R = CHR '':'' # element_text (snd y) @ R'"
        using quote_prefix by blast+
      then have t: "element_text (snd x) @ R = element_text (snd y) @ R'" by simp
      have "snd x \<in> Basic_BNFs.snds x" by (cases x) simp
      from Obj.IH[OF that(1) this j[OF that(1)] that(2,3,4) t] k show ?thesis
        by (simp add: prod_eq_iff)
    qed
    show "\<And>p. p \<in> set kvs \<Longrightarrow> is_json (snd p)" by (rule j)
    show "\<And>p. is_json (snd p) \<Longrightarrow> member_text p \<noteq> [] \<and> hd (member_text p) \<noteq> CHR ''}''"
      by (simp add: member_text_def quote_body)
    show "CHR ''}'' = CHR '']'' \<or> CHR ''}'' = CHR ''}''" by simp
    show "list_all (\<lambda>p. is_json (snd p)) kvs'" using Obj.prems(2) v' by (auto simp: list_all_iff)
  qed
  with v' show ?case by simp
qed simp_all

lemma JSON_stringify_inj:
  "is_json v \<Longrightarrow> is_json v' \<Longrightarrow> JSON_stringify v = JSON_stringify v' \<Longrightarrow> v = v'"
  using element_text_prefix[of v v' "[]" "[]"] by (simp add: is_json_stringify delimited_def)

section \<open>The matchers and the matcher of the specification\<close>

lemma is_json_field:
  "is_json (Obj obj) \<Longrightarrow> map_of obj key = Some v \<Longrightarrow> is_json v"
proof -
  assume j: "is_json (Obj obj)" and m: "map_of obj key = Some v"
  from m have "(key, v) \<in> set obj" by (rule map_of_SomeD)
  with j show ?thesis by (auto simp: list_all_iff)
qed

lemma is_json_entry:
  "is_json (Obj obj) \<Longrightarrow> (key, v) \<in> set obj \<Longrightarrow> is_json v"
  by (auto simp: list_all_iff)

lemma is_json_binding:
  "is_json (Obj obj) \<Longrightarrow> (key, v) \<in> set obj \<Longrightarrow> map_of obj key = Some v"
  by simp

lemma proto_free_entry:
  "proto_free (Obj obj) \<Longrightarrow> (key, v) \<in> set obj \<Longrightarrow> key \<noteq> ''__proto__'' \<and> proto_free v"
  by (auto simp: list_all_iff)

lemma inherited_cases:
  "key \<noteq> ''__proto__'' \<Longrightarrow> inherited key = Function \<or> inherited key = Undefined"
  by (simp add: inherited_def)

lemma strict_eq_scalar:
  "strict_eq rv Null = (rv = Null)"
  "strict_eq rv (Bool b) = (rv = Bool b)"
  "strict_eq rv (Num n) = (rv = Num n)"
  "strict_eq rv (Str s) = (rv = Str s)"
  by (cases rv; simp)+

lemma strict_eq_array: "\<not> Array_isArray rv \<Longrightarrow> strict_eq rv (Arr ql) = False"
  by (cases rv) simp_all

lemma stringify_arrays:
  "is_json (Arr ql) \<Longrightarrow> is_json (Arr rl) \<Longrightarrow>
     (JSON_stringify (Arr ql) = JSON_stringify (Arr rl)) = (rl = ql)"
  using JSON_stringify_inj[of "Arr ql" "Arr rl"] by auto

lemma matches_obj_identical:
  "is_json (Obj r) \<Longrightarrow> rcd = Obj r \<Longrightarrow> is_json (Obj query) \<Longrightarrow> proto_free (Obj query)
     \<Longrightarrow> matches_obj rcd query = spec_matches_by identical r query"
proof (induction rcd query arbitrary: r rule: matches_obj.induct)
  case (1 rcd query)
  let ?A = "\<lambda>(key, queryValue).
             (let recordValue = readProp rcd key in
              (case queryValue of
                 Obj q \<Rightarrow> (if isPlainObject recordValue then matches_obj recordValue q else False)
               | ObjectPrototype \<Rightarrow> (if isPlainObject recordValue then True else False)
               | _ \<Rightarrow>
                 if Array_isArray queryValue \<and> Array_isArray recordValue then
                   JSON_stringify queryValue = JSON_stringify recordValue
                 else strict_eq recordValue queryValue))"
  let ?B = "\<lambda>(key, qv).
        (case map_of r key of
           None \<Rightarrow> False
         | Some rv \<Rightarrow>
             (case qv of
                Obj q \<Rightarrow> (case rv of Obj r' \<Rightarrow> spec_matches_by identical r' q | _ \<Rightarrow> False)
              | Arr ql \<Rightarrow> (case rv of Arr rl \<Rightarrow> identical rv qv | _ \<Rightarrow> False)
              | _ \<Rightarrow> identical rv qv))"
  have entry: "?A (key, qv) = ?B (key, qv)" if mem: "(key, qv) \<in> set query" for key qv
  proof -
    have jq: "is_json qv" using "1.prems"(3) mem by (rule is_json_entry)
    have pf: "key \<noteq> ''__proto__''" "proto_free qv"
      using proto_free_entry[OF "1.prems"(4) mem] by simp_all
    have ne: "length (Object_keys query) \<noteq> 0" using mem by (auto simp: Object_keys_def)
    show ?thesis
    proof (cases "map_of r key")
      case None
      then have "readProp rcd key = inherited key" by (simp add: "1.prems"(2) getProp_def)
      with inherited_cases[OF pf(1)]
      have rv: "readProp rcd key = Function \<or> readProp rcd key = Undefined" by simp
      from jq rv show ?thesis by (cases qv) (auto simp: None)
    next
      case (Some rv)
      then have g: "readProp rcd key = rv" by (simp add: "1.prems"(2) getProp_def)
      have jr: "is_json rv" using "1.prems"(1) Some by (rule is_json_field)
      show ?thesis
      proof (cases qv)
        case (Obj q)
        show ?thesis
        proof (cases rv)
          case r': (Obj r')
          have "matches_obj rv q = spec_matches_by identical r' q"
          proof (rule "1.IH"[OF ne, of "(key, qv)" key qv rv q r'])
            show "(key, qv) \<in> set (Object_entries query)" using mem by (simp add: Object_entries_def)
            show "(key, qv) = (key, qv)" ..
            show "rv = readProp rcd key" using g ..
            show "qv = Obj q" by (rule Obj)
            show "isPlainObject rv" using r' by simp
            show "is_json (Obj r')" using jr r' by simp
            show "rv = Obj r'" by (rule r')
            show "is_json (Obj q)" using jq Obj by simp
            show "proto_free (Obj q)" using pf(2) Obj by simp
          qed
          with Obj r' Some g show ?thesis by simp
        qed (use jr in \<open>simp_all add: Obj Some g\<close>)
      next
        case (Arr ql)
        show ?thesis
        proof (cases rv)
          case r': (Arr rl)
          with Arr jq jr have "(JSON_stringify (Arr ql) = JSON_stringify (Arr rl)) = (rl = ql)"
            by (intro stringify_arrays) simp_all
          with Arr r' Some g show ?thesis by (simp add: identical_def)
        qed (use jr in \<open>simp_all add: Arr Some g\<close>)
      qed (use jq in \<open>simp_all add: Some g strict_eq_scalar identical_def\<close>)
    qed
  qed
  have eq: "list_all ?A query = list_all ?B query"
  proof (rule list_all_cong[OF refl])
    fix x assume x: "x \<in> set query"
    obtain key qv where p: "x = (key, qv)" by (cases x)
    with x have "(key, qv) \<in> set query" by simp
    then show "?A x = ?B x" unfolding p by (rule entry)
  qed
  have "matches_obj rcd query = (if query = [] then True else list_all ?A query)"
    by (subst matches_obj.simps) (simp add: Object_keys_def Object_entries_def)
  moreover have "spec_matches_by identical r query = (query = [] \<or> list_all ?B query)"
    by (subst spec_matches_by.simps) simp
  ultimately show ?case using eq by (cases "query = []") simp_all
qed

lemma matches_identical:
  "is_json (Obj record) \<Longrightarrow> is_json (Obj query) \<Longrightarrow> proto_free (Obj query)
     \<Longrightarrow> matches record query = spec_matches_by identical record query"
  unfolding matches_def by (rule matches_obj_identical) simp_all

lemma value_eq_refl: "is_json v \<Longrightarrow> value_eq v v"
proof (induction v)
  case (Arr xs)
  have "value_eq x y" if "(x, y) \<in> set (zip xs xs)" for x y
  proof -
    from that have "x \<in> set xs \<and> x = y" by (auto simp: zip_same)
    then have "x \<in> set xs" and "x = y" by blast+
    with Arr show ?thesis by (simp add: list_all_iff)
  qed
  then show ?case by (auto simp: list_all_iff)
next
  case (Obj kvs)
  have "case map_of kvs key of None \<Rightarrow> False | Some w \<Rightarrow> value_eq v w"
    if mem: "(key, v) \<in> set kvs" for key v
  proof -
    from Obj.prems mem have m: "map_of kvs key = Some v" by simp
    have "v \<in> Basic_BNFs.snds (key, v)" by simp
    from Obj.IH[OF mem this] is_json_entry[OF Obj.prems mem] have "value_eq v v" by simp
    with m show ?thesis by simp
  qed
  then show ?case by (auto simp: list_all_iff)
qed simp_all

lemma identical_value_eq: "is_json v \<Longrightarrow> identical v w \<Longrightarrow> value_eq v w"
  using value_eq_refl by (simp add: identical_def)

lemma spec_matches_by_identical:
  "eq = identical \<Longrightarrow> is_json (Obj record) \<Longrightarrow> spec_matches_by eq record query
     \<Longrightarrow> spec_matches_by value_eq record query"
proof (induction eq "record" query rule: spec_matches_by.induct)
  case (1 eq rcd query)
  let ?B = "\<lambda>e (key, qv).
        (case map_of rcd key of
           None \<Rightarrow> False
         | Some rv \<Rightarrow>
             (case qv of
                Obj q \<Rightarrow> (case rv of Obj r' \<Rightarrow> spec_matches_by e r' q | _ \<Rightarrow> False)
              | Arr ql \<Rightarrow> (case rv of Arr rl \<Rightarrow> e rv qv | _ \<Rightarrow> False)
              | _ \<Rightarrow> e rv qv))"
  from "1.prems"(3) have a: "query = [] \<or> list_all (?B eq) query"
    by (subst (asm) spec_matches_by.simps) simp
  have step: "?B value_eq (key, qv)" if mem: "(key, qv) \<in> set query" and b: "?B eq (key, qv)" for key qv
  proof (cases "map_of rcd key")
    case None
    with b show ?thesis by simp
  next
    case (Some rv)
    have jr: "is_json rv" using "1.prems"(2) Some by (rule is_json_field)
    show ?thesis
    proof (cases qv)
      case (Obj q)
      show ?thesis
      proof (cases rv)
        case r': (Obj r')
        from b Some Obj r' have "spec_matches_by eq r' q" by simp
        moreover have "is_json (Obj r')" using jr r' by simp
        ultimately have "spec_matches_by value_eq r' q"
          using "1.IH"[OF mem refl Some Obj r' "1.prems"(1)] by blast
        with Some Obj r' show ?thesis by simp
      qed (use b Some Obj in simp_all)
    next
      case (Arr ql)
      show ?thesis
      proof (cases rv)
        case r': (Arr rl)
        from b Some Arr r' have "identical rv qv" by (simp add: "1.prems"(1))
        then have "value_eq rv qv" using jr by (simp add: identical_value_eq)
        with Some Arr r' show ?thesis by simp
      qed (use b Some Arr in simp_all)
    qed (use b Some jr "1.prems"(1) in \<open>auto simp: identical_def\<close>)
  qed
  have "query = [] \<or> list_all (?B value_eq) query"
  proof (cases "query = []")
    case True
    then show ?thesis by simp
  next
    case False
    with a have l: "list_all (?B eq) query" by simp
    have "list_all (?B value_eq) query"
      unfolding list_all_iff
    proof
      fix x assume x: "x \<in> set query"
      obtain key qv where p: "x = (key, qv)" by (cases x)
      from l x have "?B eq x" by (simp add: list_all_iff)
      with x p show "?B value_eq x" using step by blast
    qed
    then show ?thesis by simp
  qed
  then show ?case by (subst spec_matches_by.simps) simp
qed

lemma spec_matches_refl: "is_json v \<Longrightarrow> v = Obj q \<Longrightarrow> spec_matches_by value_eq q q"
proof (induction v arbitrary: q)
  case (Obj kvs)
  then have q: "q = kvs" by simp
  let ?B = "\<lambda>(key, qv).
        (case map_of kvs key of
           None \<Rightarrow> False
         | Some rv \<Rightarrow>
             (case qv of
                Obj q \<Rightarrow> (case rv of Obj r' \<Rightarrow> spec_matches_by value_eq r' q | _ \<Rightarrow> False)
              | Arr ql \<Rightarrow> (case rv of Arr rl \<Rightarrow> value_eq rv qv | _ \<Rightarrow> False)
              | _ \<Rightarrow> value_eq rv qv))"
  have "?B (key, w)" if mem: "(key, w) \<in> set kvs" for key w
  proof -
    from Obj.prems(1) mem have m: "map_of kvs key = Some w" by simp
    have jw: "is_json w" using Obj.prems(1) mem by (rule is_json_entry)
    have s: "w \<in> Basic_BNFs.snds (key, w)" by simp
    show ?thesis
    proof (cases w)
      case o: (Obj q')
      from Obj.IH[OF mem s jw o] m o show ?thesis by simp
    next
      case (Arr ql)
      with m value_eq_refl[OF jw] show ?thesis by simp
    qed (use m in simp_all)
  qed
  then have "list_all ?B kvs" by (auto simp: list_all_iff)
  then show ?case unfolding q by (subst spec_matches_by.simps) simp
qed simp_all

lemma identical_fields_spec_matches:
  assumes "is_json (Obj record)" and "is_json (Obj query)" and "identical_fields record query"
  shows "spec_matches record query"
proof -
  let ?B = "\<lambda>(key, qv).
        (case map_of record key of
           None \<Rightarrow> False
         | Some rv \<Rightarrow>
             (case qv of
                Obj q \<Rightarrow> (case rv of Obj r' \<Rightarrow> spec_matches_by value_eq r' q | _ \<Rightarrow> False)
              | Arr ql \<Rightarrow> (case rv of Arr rl \<Rightarrow> value_eq rv qv | _ \<Rightarrow> False)
              | _ \<Rightarrow> value_eq rv qv))"
  have "?B (key, qv)" if mem: "(key, qv) \<in> set query" for key qv
  proof -
    from assms(3) mem have m: "map_of record key = Some qv"
      by (auto simp: identical_fields_def identical_def list_all_iff split: option.splits)
    have jq: "is_json qv" using assms(2) mem by (rule is_json_entry)
    show ?thesis
    proof (cases qv)
      case (Obj q)
      with spec_matches_refl[OF jq] m show ?thesis by simp
    next
      case (Arr ql)
      with m value_eq_refl[OF jq] show ?thesis by simp
    qed (use m in simp_all)
  qed
  then have "list_all ?B query" by (auto simp: list_all_iff)
  then show ?thesis unfolding spec_matches_def by (subst spec_matches_by.simps) simp
qed

lemma matchesQuery_loop_identical_fields:
  assumes "is_json (Obj record)"
  shows "list_all (\<lambda>(k, v). k \<noteq> ''__proto__'' \<and> is_json v) entries \<Longrightarrow>
     matchesQuery_loop record entries = identical_fields record entries"
proof (induction entries)
  case Nil
  then show ?case by (simp add: identical_fields_def)
next
  case (Cons e rest)
  obtain key v where e: "e = (key, v)" by (cases e)
  from Cons.prems e have jv: "is_json v" and k: "key \<noteq> ''__proto__''" by simp_all
  have "(JSON_stringify (getProp record key) = JSON_stringify v)
        = (case map_of record key of None \<Rightarrow> False | Some rv \<Rightarrow> identical rv v)"
  proof (cases "map_of record key")
    case None
    with inherited_cases[OF k] jv show ?thesis by (auto simp: getProp_def is_json_stringify)
  next
    case (Some rv)
    then have "is_json rv" using assms is_json_field by blast
    with jv Some show ?thesis using JSON_stringify_inj[of rv v] by (auto simp: getProp_def identical_def)
  qed
  with Cons e show ?case by (simp add: identical_fields_def)
qed

lemma matchesQuery_identical_fields:
  assumes "is_json (Obj record)" and "is_json (Obj query)" and "proto_free (Obj query)"
  shows "matchesQuery record query = identical_fields record query"
proof -
  from assms(2,3) have "list_all (\<lambda>(k, v). k \<noteq> ''__proto__'' \<and> is_json v) query"
    by (auto simp: list_all_iff)
  from matchesQuery_loop_identical_fields[OF assms(1) this]
  show ?thesis by (simp add: matchesQuery_def Object_entries_def)
qed

text \<open>
  C1 (as amended). For every record and query that are values of JSON (no \<^verbatim>\<open>undefined\<close>,
  no number that is not a safe integer, no key twice in a mapping) and every such query in
  which no mapping has the key \<^verbatim>\<open>__proto__\<close>: the matcher of the JSON driver (both
  versions) equals the matcher of the specification read with values compared as identical
  values, the order of the properties of their mappings included: an empty query matches,
  every key must match, a mapping matches a mapping as a subset and nothing else, a list
  matches only the identical list, any other value matches by equality. So whenever it
  matches, the matcher of the specification, which compares mappings as mappings, matches.
  The matcher of the YAML driver (both versions) is a different predicate: every key of the
  query must be a field of the record that holds the identical value, nested mappings
  included; whenever it matches, the matcher of the specification matches.
\<close>

theorem matchers_of_the_drivers:
  assumes "is_json (Obj record)" and "is_json (Obj query)" and "proto_free (Obj query)"
  shows "matches record query = spec_matches_by identical record query
       \<and> (matches record query \<longrightarrow> spec_matches record query)
       \<and> matchesQuery record query = identical_fields record query
       \<and> (matchesQuery record query \<longrightarrow> spec_matches record query)"
proof -
  have a: "matches record query = spec_matches_by identical record query"
    using assms by (rule matches_identical)
  have b: "matches record query \<longrightarrow> spec_matches record query"
    unfolding a spec_matches_def using spec_matches_by_identical[OF refl assms(1)] by blast
  have c: "matchesQuery record query = identical_fields record query"
    using assms by (rule matchesQuery_identical_fields)
  have d: "matchesQuery record query \<longrightarrow> spec_matches record query"
    unfolding c using identical_fields_spec_matches[OF assms(1,2)] by blast
  show ?thesis using a b c d by blast
qed

text \<open>
  Where the matchers and the matcher of the specification differ. The query
  \<^verbatim>\<open>{"a": {"b": 2}}\<close> and the record with \<^verbatim>\<open>a = {b: 2, c: 99}\<close>: the specification
  matches, the YAML driver does not. A list that holds a mapping with the same properties in
  another order: the specification matches, the JSON driver does not. The query
  \<^verbatim>\<open>{"__proto__": {}}\<close>, as \<^verbatim>\<open>JSON.parse\<close> makes it, and a record without such a field:
  both drivers match, the specification does not. The list \<^verbatim>\<open>[NaN]\<close> in the record and
  \<^verbatim>\<open>[null]\<close> in the query: the JSON driver matches, the specification does not.
\<close>

theorem matchers_counterexample:
  "spec_matches [(''a'', Obj [(''b'', Num 2), (''c'', Num 99)])] [(''a'', Obj [(''b'', Num 2)])]
   \<and> \<not> matchesQuery [(''a'', Obj [(''b'', Num 2), (''c'', Num 99)])] [(''a'', Obj [(''b'', Num 2)])]
   \<and> spec_matches [(''t'', Arr [Obj [(''a'', Num 1), (''b'', Num 2)]])]
        [(''t'', Arr [Obj [(''b'', Num 2), (''a'', Num 1)]])]
   \<and> \<not> matches [(''t'', Arr [Obj [(''a'', Num 1), (''b'', Num 2)]])]
        [(''t'', Arr [Obj [(''b'', Num 2), (''a'', Num 1)]])]
   \<and> \<not> spec_matches [(''a'', Num 1)] [(''__proto__'', Obj [])]
   \<and> matches [(''a'', Num 1)] [(''__proto__'', Obj [])]
   \<and> matchesQuery [(''a'', Num 1)] [(''__proto__'', Obj [])]
   \<and> \<not> spec_matches [(''t'', Arr [NaN])] [(''t'', Arr [Null])]
   \<and> matches [(''t'', Arr [NaN])] [(''t'', Arr [Null])]"
proof -
  have s1: "spec_matches [(''a'', Obj [(''b'', Num 2), (''c'', Num 99)])] [(''a'', Obj [(''b'', Num 2)])]"
    by (simp add: spec_matches_def spec_matches_by.simps)
  have "matchesQuery [(''a'', Obj [(''b'', Num 2), (''c'', Num 99)])] [(''a'', Obj [(''b'', Num 2)])]
        = identical_fields [(''a'', Obj [(''b'', Num 2), (''c'', Num 99)])] [(''a'', Obj [(''b'', Num 2)])]"
    by (rule matchesQuery_identical_fields) (simp_all add: safe_integer_def)
  then have y1: "\<not> matchesQuery [(''a'', Obj [(''b'', Num 2), (''c'', Num 99)])] [(''a'', Obj [(''b'', Num 2)])]"
    by (simp add: identical_fields_def identical_def)
  have s2: "spec_matches [(''t'', Arr [Obj [(''a'', Num 1), (''b'', Num 2)]])]
        [(''t'', Arr [Obj [(''b'', Num 2), (''a'', Num 1)]])]"
    by (auto simp: spec_matches_def spec_matches_by.simps Object_keys_def)
  have "matches [(''t'', Arr [Obj [(''a'', Num 1), (''b'', Num 2)]])]
          [(''t'', Arr [Obj [(''b'', Num 2), (''a'', Num 1)]])]
        = spec_matches_by identical [(''t'', Arr [Obj [(''a'', Num 1), (''b'', Num 2)]])]
          [(''t'', Arr [Obj [(''b'', Num 2), (''a'', Num 1)]])]"
    by (rule matches_identical) (simp_all add: safe_integer_def)
  then have j2: "\<not> matches [(''t'', Arr [Obj [(''a'', Num 1), (''b'', Num 2)]])]
        [(''t'', Arr [Obj [(''b'', Num 2), (''a'', Num 1)]])]"
    by (simp add: spec_matches_by.simps identical_def)
  have s3: "\<not> spec_matches [(''a'', Num 1)] [(''__proto__'', Obj [])]"
    by (simp add: spec_matches_def spec_matches_by.simps)
  have j3: "matches [(''a'', Num 1)] [(''__proto__'', Obj [])]"
    by (simp add: matches_def matches_obj.simps Object_keys_def Object_entries_def getProp_def
          inherited_def)
  have y3: "matchesQuery [(''a'', Num 1)] [(''__proto__'', Obj [])]"
    by (simp add: matchesQuery_def Object_entries_def getProp_def inherited_def)
  have s4: "\<not> spec_matches [(''t'', Arr [NaN])] [(''t'', Arr [Null])]"
    by (simp add: spec_matches_def spec_matches_by.simps)
  have j4: "matches [(''t'', Arr [NaN])] [(''t'', Arr [Null])]"
    by (simp add: matches_def matches_obj.simps Object_keys_def Object_entries_def getProp_def)
  show ?thesis using s1 y1 s2 j2 s3 j3 y3 s4 j4 by blast
qed

theorem matchers_of_the_drivers_witness:
  "is_json (Obj [(''a'', Obj [(''b'', Num 2), (''c'', Num 99)]), (''tags'', Arr [Num 1, Num 2])])
   \<and> is_json (Obj [(''a'', Obj [(''b'', Num 2)]), (''tags'', Arr [Num 1, Num 2])])
   \<and> proto_free (Obj [(''a'', Obj [(''b'', Num 2)]), (''tags'', Arr [Num 1, Num 2])])
   \<and> matches [(''a'', Obj [(''b'', Num 2), (''c'', Num 99)]), (''tags'', Arr [Num 1, Num 2])]
        [(''a'', Obj [(''b'', Num 2)]), (''tags'', Arr [Num 1, Num 2])]
   \<and> spec_matches [(''a'', Obj [(''b'', Num 2), (''c'', Num 99)]), (''tags'', Arr [Num 1, Num 2])]
        [(''a'', Obj [(''b'', Num 2)]), (''tags'', Arr [Num 1, Num 2])]
   \<and> \<not> matchesQuery [(''a'', Obj [(''b'', Num 2), (''c'', Num 99)]), (''tags'', Arr [Num 1, Num 2])]
        [(''a'', Obj [(''b'', Num 2)]), (''tags'', Arr [Num 1, Num 2])]"
  using matchers_of_the_drivers[of
      "[(''a'', Obj [(''b'', Num 2), (''c'', Num 99)]), (''tags'', Arr [Num 1, Num 2])]"
      "[(''a'', Obj [(''b'', Num 2)]), (''tags'', Arr [Num 1, Num 2])]"]
  by (simp add: spec_matches_by.simps identical_fields_def identical_def safe_integer_def)

section \<open>Object literals and the iteration of update\<close>

lemma getProp_setProp:
  "getProp (setProp obj key v) k = (if k = key then v else getProp obj k)"
  by (simp add: getProp_def setProp_def update_conv')

lemma map_of_spread: "map_of (spread target source) = map_of target ++ map_of (rev source)"
proof (induction source arbitrary: target)
  case Nil
  then show ?case by (simp add: spread_def Object_entries_def)
next
  case (Cons p source)
  obtain k v where p: "p = (k, v)" by (cases p)
  have "spread target (p # source) = spread (setProp target k v) source"
    by (simp add: spread_def Object_entries_def p)
  then have "map_of (spread target (p # source)) = map_of (setProp target k v) ++ map_of (rev source)"
    by (simp add: Cons.IH)
  also have "\<dots> = (map_of target)(k \<mapsto> v) ++ map_of (rev source)"
    by (simp only: setProp_def update_conv')
  also have "\<dots> = map_of target ++ map_of (rev (p # source))"
    by (auto simp: p fun_eq_iff map_add_def split: option.splits)
  finally show ?case .
qed

lemma map_of_rev_distinct: "distinct (map fst xs) \<Longrightarrow> map_of (rev xs) = map_of xs"
proof (induction xs)
  case Nil
  then show ?case by simp
next
  case (Cons p xs)
  obtain k v where p: "p = (k, v)" by (cases p)
  from Cons.prems p have nk: "k \<notin> fst ` set xs" and d: "distinct (map fst xs)" by auto
  from nk have none: "map_of xs k = None" by (simp add: map_of_eq_None_iff)
  have "map_of (rev (p # xs)) = map_of [(k, v)] ++ map_of xs"
    using Cons.IH[OF d] by (simp add: p)
  also have "\<dots> = map_of (p # xs)"
    using none by (auto simp: p fun_eq_iff map_add_def split: option.splits)
  finally show ?case .
qed

lemma getProp_spread:
  assumes "is_object source"
  shows "getProp (spread target source) k =
           (if k \<in> set (Object_keys source) then getProp source k else getProp target k)"
proof -
  have m: "map_of (spread target source) = map_of target ++ map_of source"
    using assms by (simp add: map_of_spread map_of_rev_distinct is_object_def Object_keys_def)
  show ?thesis
  proof (cases "map_of source k")
    case None
    then have "k \<notin> set (Object_keys source)" by (simp add: map_of_eq_None_iff Object_keys_def)
    with None m show ?thesis by (simp add: getProp_def map_add_def)
  next
    case (Some v)
    then have "k \<in> set (Object_keys source)"
      by (metis Object_keys_def map_of_eq_None_iff option.distinct(1) set_map)
    with Some m show ?thesis by (simp add: getProp_def map_add_def)
  qed
qed

lemma getProp_absent: "k \<notin> set (Object_keys obj) \<Longrightarrow> getProp obj k = inherited k"
proof -
  assume "k \<notin> set (Object_keys obj)"
  then have "map_of obj k = None" by (simp add: map_of_eq_None_iff Object_keys_def)
  then show ?thesis by (simp add: getProp_def)
qed

lemma getProp_empty: "getProp [] k = inherited k"
  by (simp add: getProp_def)

lemma getProp_copy: "is_object source \<Longrightarrow> getProp (spread [] source) k = getProp source k"
  using getProp_spread[of source "[]" k] getProp_absent[of k source]
  by (simp add: getProp_def)

lemma json_merge_field:
  "is_object rcd \<Longrightarrow> is_object patch \<Longrightarrow>
     getProp (json_merge rcd patch t) key = spec_merged_field False rcd patch t key"
  by (simp add: json_merge_def spec_merged_field_def getProp_setProp getProp_spread getProp_absent getProp_empty)

lemma yaml_merge_field:
  "is_object rcd \<Longrightarrow> is_object patch \<Longrightarrow>
     getProp (yaml_merge rcd patch t) key = spec_merged_field True rcd patch t key"
  by (simp add: yaml_merge_def spec_merged_field_def getProp_setProp getProp_spread getProp_absent getProp_empty)

lemma json_update_map_eq:
  "json_update_map query patch now i c rs =
     (map (\<lambda>(j, r). if matches r query then json_merge r patch (now j) else r) (enumerate i rs),
      c + length (filter (\<lambda>r. matches r query) rs))"
  by (induction rs arbitrary: i c) (simp_all add: Let_def)

lemma yaml_update_loop_eq:
  "i \<le> length ds \<Longrightarrow>
   yaml_update_loop query patch now i c ds =
     (take i ds @ map (\<lambda>(j, r). if matchesQuery r query then yaml_merge r patch (now j) else r)
                      (enumerate i (drop i ds)),
      c + length (filter (\<lambda>r. matchesQuery r query) (drop i ds)))"
proof (induction query patch now i c ds rule: yaml_update_loop.induct)
  case (1 query patch now i c ds)
  show ?case
  proof (cases "i < length ds")
    case False
    with "1.prems" have "i = length ds" by simp
    then show ?thesis by (subst yaml_update_loop.simps) simp
  next
    case lt: True
    then have dr: "drop i ds = ds ! i # drop (Suc i) ds" by (simp add: Cons_nth_drop_Suc)
    show ?thesis
    proof (cases "matchesQuery (ds ! i) query")
      case True
      let ?ds' = "ds[i := yaml_merge (ds ! i) patch (now i)]"
      have le: "i + 1 \<le> length ?ds'" using lt by simp
      have t: "take (i + 1) ?ds' = take i ds @ [yaml_merge (ds ! i) patch (now i)]"
        using lt by (simp add: take_Suc_conv_app_nth)
      have d: "drop (i + 1) ?ds' = drop (Suc i) ds" by simp
      have "yaml_update_loop query patch now i c ds
            = yaml_update_loop query patch now (i + 1) (c + 1) ?ds'"
        using lt True by (subst yaml_update_loop.simps) simp
      also note "1.IH"(1)[OF lt True le]
      finally show ?thesis using True lt by (simp add: take_Suc_conv_app_nth dr)
    next
      case False
      have le: "i + 1 \<le> length ds" using lt by simp
      have t: "take (i + 1) ds = take i ds @ [ds ! i]"
        using lt by (simp add: take_Suc_conv_app_nth)
      have "yaml_update_loop query patch now i c ds
            = yaml_update_loop query patch now (i + 1) c ds"
        using lt False by (subst yaml_update_loop.simps) simp
      also note "1.IH"(2)[OF lt False le]
      finally show ?thesis using False lt by (simp add: take_Suc_conv_app_nth dr)
    qed
  qed
qed

lemma ja_update_eq:
  "ja_update query patch now d =
     (let n = length (filter (\<lambda>r. matches r query) (ja_records d));
          d1 = d\<lparr>ja_records := spec_update (\<lambda>r. matches r query) (\<lambda>r. json_merge r patch) now (ja_records d)\<rparr>
      in (Inr n, if n > 0 \<and> ja_autoSave d then ja_persist d1 else d1))"
  by (simp add: ja_update_def json_update_map_eq spec_update_def Let_def)

lemma jb_update_eq:
  "jb_isConnected d \<Longrightarrow> jb_update query patch now d =
     (let n = length (filter (\<lambda>r. matches r query) (jb_data d));
          d1 = d\<lparr>jb_data := spec_update (\<lambda>r. matches r query) (\<lambda>r. json_merge r patch) now (jb_data d)\<rparr>
      in (Inr n, if n > 0 then jb_saveToFile d1 else d1))"
  by (simp add: jb_update_def json_update_map_eq spec_update_def Let_def)

lemma ya_update_eq:
  "ya_isConnected d \<Longrightarrow> ya_update query patch now d =
     (let n = length (filter (\<lambda>r. matchesQuery r query) (ya_data d));
          d1 = d\<lparr>ya_data := spec_update (\<lambda>r. matchesQuery r query) (\<lambda>r. yaml_merge r patch) now (ya_data d)\<rparr>
      in (Inr n, if n > 0 \<and> ya_autoSave d then ya_saveToFile d1 else d1))"
  by (simp add: ya_update_def yaml_update_loop_eq spec_update_def Let_def)

lemma yb_update_eq:
  "yb_isConnected d \<Longrightarrow> yb_update query patch now d =
     (Inr (length (filter (\<lambda>r. matchesQuery r query) (yb_data d))),
      d\<lparr>yb_data := spec_update (\<lambda>r. matchesQuery r query) (\<lambda>r. yaml_merge r patch) now (yb_data d)\<rparr>)"
  by (simp add: yb_update_def yaml_update_loop_eq spec_update_def Let_def)

section \<open>Insertion\<close>

lemma json_a_record_field:
  "is_object inp \<Longrightarrow> getProp (json_a_record inp t1 t2) key = spec_inserted_field None t1 t2 inp key"
  by (simp add: json_a_record_def spec_inserted_field_def getProp_setProp getProp_copy)

lemma json_b_record_field:
  "is_object inp \<Longrightarrow> getProp (json_b_record inp gid t1 t2) key
     = spec_inserted_field (Some (if truthy (getProp inp ''_id'') then getProp inp ''_id'' else Str gid))
         t1 t2 inp key"
  by (simp add: json_b_record_def spec_inserted_field_def getProp_setProp getProp_copy)

lemma yaml_record_field:
  "is_object inp \<Longrightarrow> getProp (yaml_record inp gid t1 t2) key
     = spec_inserted_field (Some (Str gid)) t1 t2 inp key"
  by (simp add: yaml_record_def spec_inserted_field_def getProp_setProp getProp_copy)

lemma yaml_record_id: "getProp (yaml_record inp gid t1 t2) ''_id'' = Str gid"
  by (simp add: yaml_record_def getProp_setProp)

section \<open>Saving and reading by reference\<close>

lemma ja_saves:
  assumes "ja_autoSave ja"
  shows "ja_disk (snd (ja_set inp t1 t2 ja)) = snapshot (ja_records (snd (ja_set inp t1 t2 ja)))"
    "saved_when_positive (fst (ja_update query patch now ja)) (ja_disk ja)
        (ja_records (snd (ja_update query patch now ja))) (ja_disk (snd (ja_update query patch now ja)))"
    "saved_when_positive (fst (ja_delete query ja)) (ja_disk ja)
        (ja_records (snd (ja_delete query ja))) (ja_disk (snd (ja_delete query ja)))"
    "ja_disk (snd (ja_clear ja)) = snapshot (ja_records (snd (ja_clear ja)))"
  using assms
  by (simp_all add: ja_set_def ja_update_def ja_delete_def ja_clear_def ja_persist_def Let_def
        saved_when_positive_def split: prod.splits)

lemma jb_saves:
  assumes "jb_isConnected jb"
  shows "jb_disk (snd (jb_set inp gid t1 t2 jb)) = snapshot (jb_data (snd (jb_set inp gid t1 t2 jb)))"
    "saved_when_positive (fst (jb_update query patch now jb)) (jb_disk jb)
        (jb_data (snd (jb_update query patch now jb))) (jb_disk (snd (jb_update query patch now jb)))"
    "saved_when_positive (fst (jb_delete query jb)) (jb_disk jb)
        (jb_data (snd (jb_delete query jb))) (jb_disk (snd (jb_delete query jb)))"
    "jb_disk (snd (jb_clear jb)) = snapshot (jb_data (snd (jb_clear jb)))"
  using assms
  by (simp_all add: jb_set_def jb_update_def jb_delete_def jb_clear_def jb_saveToFile_def Let_def
        saved_when_positive_def split: prod.splits)

lemma ya_saves:
  assumes "ya_isConnected ya" and "ya_autoSave ya"
  shows "ya_disk (snd (ya_set inp gid t1 t2 ya)) = snapshot (ya_data (snd (ya_set inp gid t1 t2 ya)))"
    "saved_when_positive (fst (ya_update query patch now ya)) (ya_disk ya)
        (ya_data (snd (ya_update query patch now ya))) (ya_disk (snd (ya_update query patch now ya)))"
    "saved_when_positive (fst (ya_delete query ya)) (ya_disk ya)
        (ya_data (snd (ya_delete query ya))) (ya_disk (snd (ya_delete query ya)))"
    "ya_disk (snd (ya_clear ya)) = snapshot (ya_data (snd (ya_clear ya)))"
  using assms
  by (simp_all add: ya_set_def ya_update_def ya_delete_def ya_clear_def ya_saveToFile_def Let_def
        saved_when_positive_def split: prod.splits)

lemma yb_never_saves:
  assumes "yb_isConnected yb"
  shows "yb_disk (snd (yb_set inp gid t1 t2 yb)) = yb_disk yb"
    "yb_disk (snd (yb_update query patch now yb)) = yb_disk yb"
    "yb_disk (snd (yb_delete query yb)) = yb_disk yb"
    "yb_save yb = (Inr (), yb\<lparr>yb_disk := snapshot (yb_data yb)\<rparr>)"
  using assms
  by (simp_all add: yb_set_def yb_update_def yb_delete_def yb_save_def yb_saveToFile_def Let_def
        split: prod.splits)

lemma matches_empty: "matches x [] = True"
  unfolding matches_def by (subst matches_obj.simps) (simp add: Object_keys_def)

lemma matchesQuery_empty: "matchesQuery x [] = True"
  by (simp add: matchesQuery_def Object_entries_def)

lemma get_refs_filter:
  "ja_get_refs h query refs = filter (\<lambda>r. matches (h r) query) refs"
  "jb_get_refs h query refs = filter (\<lambda>r. matches (h r) query) refs"
  "yaml_get_refs h query refs = filter (\<lambda>r. matchesQuery (h r) query) refs"
proof -
  show "ja_get_refs h query refs = filter (\<lambda>r. matches (h r) query) refs"
    by (simp add: ja_get_refs_def)
  show "jb_get_refs h query refs = filter (\<lambda>r. matches (h r) query) refs"
    by (cases "query = []") (simp_all add: jb_get_refs_def Object_keys_def matches_empty)
  show "yaml_get_refs h query refs = filter (\<lambda>r. matchesQuery (h r) query) refs"
    by (cases "query = []") (simp_all add: yaml_get_refs_def Object_keys_def matchesQuery_empty)
qed

lemma deref_assign:
  "deref (assign h r key v) refs = map (\<lambda>a. if a = r then setProp (h a) key v else h a) refs"
  by (simp add: deref_def assign_def)

section \<open>The claims about the operations\<close>

text \<open>
  C2 (as amended). For every connected YAML store, every connected store of the second JSON
  version and every store of the first JSON version, \<^verbatim>\<open>update(query, patch)\<close> returns the
  number of records that its matcher matches and replaces each of them, in place, by the
  merge of the patch over its fields with \<^verbatim>\<open>_updatedAt\<close> set to the clock reading; the
  other records are unchanged and keep their positions. In the YAML driver \<^verbatim>\<open>_id\<close> and
  \<^verbatim>\<open>_createdAt\<close> keep their prior values whatever the patch holds; in the JSON driver
  they are fields like any other, and a patch that holds them overwrites them.
\<close>

theorem update_of_the_drivers:
  assumes "jb_isConnected jb" and "ya_isConnected ya" and "yb_isConnected yb"
    and "is_object rcd" and "is_object patch"
  shows "fst (ya_update query patch now ya) = Inr (length (filter (\<lambda>r. matchesQuery r query) (ya_data ya)))
       \<and> ya_data (snd (ya_update query patch now ya))
           = spec_update (\<lambda>r. matchesQuery r query) (\<lambda>r. yaml_merge r patch) now (ya_data ya)
       \<and> fst (yb_update query patch now yb) = Inr (length (filter (\<lambda>r. matchesQuery r query) (yb_data yb)))
       \<and> yb_data (snd (yb_update query patch now yb))
           = spec_update (\<lambda>r. matchesQuery r query) (\<lambda>r. yaml_merge r patch) now (yb_data yb)
       \<and> getProp (yaml_merge rcd patch t) key = spec_merged_field True rcd patch t key
       \<and> fst (ja_update query patch now ja) = Inr (length (filter (\<lambda>r. matches r query) (ja_records ja)))
       \<and> ja_records (snd (ja_update query patch now ja))
           = spec_update (\<lambda>r. matches r query) (\<lambda>r. json_merge r patch) now (ja_records ja)
       \<and> fst (jb_update query patch now jb) = Inr (length (filter (\<lambda>r. matches r query) (jb_data jb)))
       \<and> jb_data (snd (jb_update query patch now jb))
           = spec_update (\<lambda>r. matches r query) (\<lambda>r. json_merge r patch) now (jb_data jb)
       \<and> getProp (json_merge rcd patch t) key = spec_merged_field False rcd patch t key"
proof -
  have ya: "fst (ya_update query patch now ya) = Inr (length (filter (\<lambda>r. matchesQuery r query) (ya_data ya)))"
    "ya_data (snd (ya_update query patch now ya))
           = spec_update (\<lambda>r. matchesQuery r query) (\<lambda>r. yaml_merge r patch) now (ya_data ya)"
    using assms(2) by (simp_all add: ya_update_eq Let_def ya_saveToFile_def)
  have yb: "fst (yb_update query patch now yb) = Inr (length (filter (\<lambda>r. matchesQuery r query) (yb_data yb)))"
    "yb_data (snd (yb_update query patch now yb))
           = spec_update (\<lambda>r. matchesQuery r query) (\<lambda>r. yaml_merge r patch) now (yb_data yb)"
    using assms(3) by (simp_all add: yb_update_eq)
  have ja: "fst (ja_update query patch now ja) = Inr (length (filter (\<lambda>r. matches r query) (ja_records ja)))"
    "ja_records (snd (ja_update query patch now ja))
           = spec_update (\<lambda>r. matches r query) (\<lambda>r. json_merge r patch) now (ja_records ja)"
    by (simp_all add: ja_update_eq Let_def ja_persist_def)
  have jb: "fst (jb_update query patch now jb) = Inr (length (filter (\<lambda>r. matches r query) (jb_data jb)))"
    "jb_data (snd (jb_update query patch now jb))
           = spec_update (\<lambda>r. matches r query) (\<lambda>r. json_merge r patch) now (jb_data jb)"
    using assms(1) by (simp_all add: jb_update_eq Let_def jb_saveToFile_def)
  note m = yaml_merge_field[OF assms(4,5), of t key] json_merge_field[OF assms(4,5), of t key]
  show ?thesis
    by (intro conjI) (rule ya yb ja jb m)+
qed

theorem update_of_the_drivers_witness:
  "jb_isConnected \<lparr>jb_data = [ [(''_id'', Str ''1''), (''a'', Num 1)] ], jb_isConnected = True, jb_disk = Missing\<rparr>
   \<and> ya_isConnected \<lparr>ya_data = [ [(''_id'', Str ''1''), (''a'', Num 1)], [(''_id'', Str ''2''), (''a'', Num 2)] ],
        ya_isConnected = True, ya_autoSave = True, ya_disk = Missing\<rparr>
   \<and> yb_isConnected \<lparr>yb_data = [], yb_isConnected = True, yb_disk = Missing\<rparr>
   \<and> is_object [(''_id'', Str ''1''), (''a'', Num 1)]
   \<and> is_object [(''_id'', Str ''9''), (''x'', Bool True)]
   \<and> fst (ya_update [(''a'', Num 1)] [(''_id'', Str ''9''), (''x'', Bool True)] (clock_at ''now'')
        \<lparr>ya_data = [ [(''_id'', Str ''1''), (''a'', Num 1)], [(''_id'', Str ''2''), (''a'', Num 2)] ],
         ya_isConnected = True, ya_autoSave = True, ya_disk = Missing\<rparr>) = Inr 1
   \<and> getProp (yaml_merge [(''_id'', Str ''1''), (''a'', Num 1)] [(''_id'', Str ''9''), (''x'', Bool True)] ''now'') ''_id''
       = Str ''1''
   \<and> getProp (json_merge [(''_id'', Str ''1''), (''a'', Num 1)] [(''_id'', Str ''9''), (''x'', Bool True)] ''now'') ''_id''
       = Str ''9''"
  using update_of_the_drivers[where
      jb = "\<lparr>jb_data = [ [(''_id'', Str ''1''), (''a'', Num 1)] ], jb_isConnected = True, jb_disk = Missing\<rparr>"
      and ya = "\<lparr>ya_data = [ [(''_id'', Str ''1''), (''a'', Num 1)], [(''_id'', Str ''2''), (''a'', Num 2)] ],
        ya_isConnected = True, ya_autoSave = True, ya_disk = Missing\<rparr>"
      and yb = "\<lparr>yb_data = [], yb_isConnected = True, yb_disk = Missing\<rparr>"
      and ja = "\<lparr>ja_records = [], ja_autoSave = True, ja_disk = Missing\<rparr>"
      and rcd = "[(''_id'', Str ''1''), (''a'', Num 1)]"
      and patch = "[(''_id'', Str ''9''), (''x'', Bool True)]"
      and query = "[(''a'', Num 1)]" and now = "clock_at ''now''" and t = "''now''" and key = "''_id''"]
  by (simp add: is_object_def Object_keys_def spec_merged_field_def getProp_def matchesQuery_def
        Object_entries_def show_int_def show_nat_small digit_char_def)

text \<open>
  A patch that holds \<^verbatim>\<open>_id\<close> and \<^verbatim>\<open>_createdAt\<close>, applied by the JSON driver to a record
  whose \<^verbatim>\<open>_id\<close> is \<^verbatim>\<open>1\<close>: both fields take the values of the patch.
\<close>

theorem update_overwrites_id_counterexample:
  "getProp (hd (ja_records (snd (ja_update [] [(''_id'', Str ''9''), (''_createdAt'', Str ''never'')]
      (clock_at ''now'')
      \<lparr>ja_records = [ [(''_id'', Str ''1''), (''_createdAt'', Str ''then''), (''_updatedAt'', Str ''then'')] ],
       ja_autoSave = True, ja_disk = Missing\<rparr>)))) ''_id'' = Str ''9''
   \<and> getProp (hd (jb_data (snd (jb_update [] [(''_id'', Str ''9''), (''_createdAt'', Str ''never'')]
      (clock_at ''now'')
      \<lparr>jb_data = [ [(''_id'', Str ''1''), (''_createdAt'', Str ''then''), (''_updatedAt'', Str ''then'')] ],
       jb_isConnected = True, jb_disk = Missing\<rparr>)))) ''_createdAt'' = Str ''never''"
  by (simp add: ja_update_def jb_update_def matches_def matches_obj.simps Object_keys_def json_merge_def spread_def
        Object_entries_def setProp_def getProp_def ja_persist_def jb_saveToFile_def)

text \<open>
  C3 (as amended). For every instance of the YAML driver (both versions) and of the second
  JSON version that is not connected, each of \<^verbatim>\<open>set\<close>, \<^verbatim>\<open>get\<close>, \<^verbatim>\<open>update\<close>,
  \<^verbatim>\<open>delete\<close>, \<^verbatim>\<open>exists\<close> and \<^verbatim>\<open>count\<close> fails with the not-connected error and leaves
  the instance as it was. The first JSON version has no connection state: none of its six
  operations fails with that error.
\<close>

theorem operations_before_connect:
  assumes "\<not> jb_isConnected jb" and "\<not> ya_isConnected ya" and "\<not> yb_isConnected yb"
  shows "jb_set inp gid t1 t2 jb = (Inl NotConnected, jb) \<and> jb_get query jb = (Inl NotConnected, jb)
       \<and> jb_update query patch now jb = (Inl NotConnected, jb) \<and> jb_delete query jb = (Inl NotConnected, jb)
       \<and> jb_exists query jb = (Inl NotConnected, jb) \<and> jb_count query jb = (Inl NotConnected, jb)
       \<and> ya_set inp gid t1 t2 ya = (Inl NotConnected, ya) \<and> ya_get query ya = (Inl NotConnected, ya)
       \<and> ya_update query patch now ya = (Inl NotConnected, ya) \<and> ya_delete query ya = (Inl NotConnected, ya)
       \<and> ya_exists query ya = (Inl NotConnected, ya) \<and> ya_count query ya = (Inl NotConnected, ya)
       \<and> yb_set inp gid t1 t2 yb = (Inl NotConnected, yb) \<and> yb_get query yb = (Inl NotConnected, yb)
       \<and> yb_update query patch now yb = (Inl NotConnected, yb) \<and> yb_delete query yb = (Inl NotConnected, yb)
       \<and> yb_exists query yb = (Inl NotConnected, yb) \<and> yb_count query yb = (Inl NotConnected, yb)
       \<and> fst (ja_set inp t1 t2 ja) \<noteq> Inl NotConnected \<and> fst (ja_get query ja) \<noteq> Inl NotConnected
       \<and> fst (ja_update query patch now ja) \<noteq> Inl NotConnected \<and> fst (ja_delete query ja) \<noteq> Inl NotConnected
       \<and> fst (ja_exists query ja) \<noteq> Inl NotConnected \<and> fst (ja_count query ja) \<noteq> Inl NotConnected"
proof -
  have jb: "jb_set inp gid t1 t2 jb = (Inl NotConnected, jb)" "jb_get query jb = (Inl NotConnected, jb)"
    "jb_update query patch now jb = (Inl NotConnected, jb)" "jb_delete query jb = (Inl NotConnected, jb)"
    "jb_exists query jb = (Inl NotConnected, jb)" "jb_count query jb = (Inl NotConnected, jb)"
    using assms(1)
    by (simp_all add: jb_set_def jb_get_def jb_update_def jb_delete_def jb_exists_def jb_count_def)
  have ya: "ya_set inp gid t1 t2 ya = (Inl NotConnected, ya)" "ya_get query ya = (Inl NotConnected, ya)"
    "ya_update query patch now ya = (Inl NotConnected, ya)" "ya_delete query ya = (Inl NotConnected, ya)"
    "ya_exists query ya = (Inl NotConnected, ya)" "ya_count query ya = (Inl NotConnected, ya)"
    using assms(2)
    by (simp_all add: ya_set_def ya_get_def ya_update_def ya_delete_def ya_exists_def ya_count_def)
  have yb: "yb_set inp gid t1 t2 yb = (Inl NotConnected, yb)" "yb_get query yb = (Inl NotConnected, yb)"
    "yb_update query patch now yb = (Inl NotConnected, yb)" "yb_delete query yb = (Inl NotConnected, yb)"
    "yb_exists query yb = (Inl NotConnected, yb)" "yb_count query yb = (Inl NotConnected, yb)"
    using assms(3)
    by (simp_all add: yb_set_def yb_get_def yb_update_def yb_delete_def yb_exists_def yb_count_def)
  have ja: "fst (ja_set inp t1 t2 ja) \<noteq> Inl NotConnected" "fst (ja_get query ja) \<noteq> Inl NotConnected"
    "fst (ja_update query patch now ja) \<noteq> Inl NotConnected" "fst (ja_delete query ja) \<noteq> Inl NotConnected"
    "fst (ja_exists query ja) \<noteq> Inl NotConnected" "fst (ja_count query ja) \<noteq> Inl NotConnected"
    by (simp_all add: ja_set_def ja_get_def ja_update_def ja_delete_def ja_exists_def ja_count_def
          Let_def split: prod.splits)
  show ?thesis
    by (intro conjI) (rule jb ya yb ja)+
qed

theorem operations_before_connect_witness:
  "\<not> jb_isConnected (jb_new Missing) \<and> \<not> ya_isConnected (ya_new True Missing)
   \<and> \<not> yb_isConnected (snd (yb_disconnect (snd (yb_connect (yb_new Missing)))))
   \<and> jb_set [] ''g'' ''t1'' ''t2'' (jb_new Missing) = (Inl NotConnected, jb_new Missing)
   \<and> ya_count [] (ya_new True Missing) = (Inl NotConnected, ya_new True Missing)
   \<and> fst (yb_get [] (snd (yb_disconnect (snd (yb_connect (yb_new Missing)))))) = Inl NotConnected"
  using operations_before_connect[where jb = "jb_new Missing" and ya = "ya_new True Missing"
      and yb = "snd (yb_disconnect (snd (yb_connect (yb_new Missing))))"
      and ja = "ja_new True Missing" and inp = "[]" and gid = "''g''" and ?t1.0 = "''t1''"
      and ?t2.0 = "''t2''" and query = "[]" and patch = "[]" and now = "clock_at ''t''"]
  by (simp add: jb_new_def ya_new_def yb_new_def yb_connect_def yb_disconnect_def yb_saveToFile_def)

text \<open>
  The first JSON version on an instance that was never connected: \<^verbatim>\<open>set\<close> returns the record
  and the collection grows, \<^verbatim>\<open>count\<close> returns a number.
\<close>

theorem ungated_set_counterexample:
  "fst (ja_set [(''a'', Num 1)] ''t1'' ''t2'' (ja_new False Missing))
     = Inr [(''a'', Num 1), (''_createdAt'', Str ''t1''), (''_updatedAt'', Str ''t2'')]
   \<and> ja_records (ja_new False Missing) = []
   \<and> ja_records (snd (ja_set [(''a'', Num 1)] ''t1'' ''t2'' (ja_new False Missing)))
     = [ [(''a'', Num 1), (''_createdAt'', Str ''t1''), (''_updatedAt'', Str ''t2'')] ]
   \<and> fst (ja_count [] (ja_new False Missing)) = Inr 0"
  by (simp add: ja_set_def ja_new_def ja_count_def json_a_record_def spread_def Object_entries_def
        setProp_def Let_def)

text \<open>
  C4 (as amended). For every backing file whose content the decoder rejects: in the YAML
  driver (both versions) \<^verbatim>\<open>connect()\<close> swallows the failure and leaves a connected instance
  with an empty collection, and \<^verbatim>\<open>reload()\<close> on a connected instance raises the parse
  error and changes nothing. In the JSON driver \<^verbatim>\<open>connect()\<close> raises the parse error
  (both versions; the instance stays as it was, not connected in the second version), and so does
  \<^verbatim>\<open>reload()\<close> of the second version on a connected instance.
\<close>

theorem malformed_file:
  assumes "ya_disk ya = Malformed" and "yb_disk yb = Malformed" and "ja_disk ja = Malformed"
    and "jb_disk jb = Malformed"
  shows "ya_connect ya = (Inr (), ya\<lparr>ya_data := [], ya_isConnected := True\<rparr>)
       \<and> (ya_isConnected ya \<longrightarrow> ya_reload ya = (Inl ParseError, ya))
       \<and> yb_connect yb = (Inr (), yb\<lparr>yb_data := [], yb_isConnected := True\<rparr>)
       \<and> (yb_isConnected yb \<longrightarrow> yb_reload yb = (Inl ParseError, yb))
       \<and> ja_connect ja = (Inl ParseError, ja)
       \<and> jb_connect jb = (Inl ParseError, jb)
       \<and> (jb_isConnected jb \<longrightarrow> jb_reload jb = (Inl ParseError, jb))"
  using assms
  by (simp add: ya_connect_def ya_reload_def yb_connect_def yb_reload_def ja_connect_def jb_connect_def
        jb_reload_def)

theorem malformed_file_witness:
  "ya_disk \<lparr>ya_data = [ [(''a'', Num 1)] ], ya_isConnected = True, ya_autoSave = True, ya_disk = Malformed\<rparr> = Malformed
   \<and> yb_disk \<lparr>yb_data = [ [(''a'', Num 1)] ], yb_isConnected = True, yb_disk = Malformed\<rparr> = Malformed
   \<and> ja_disk \<lparr>ja_records = [], ja_autoSave = True, ja_disk = Malformed\<rparr> = Malformed
   \<and> jb_disk \<lparr>jb_data = [ [(''a'', Num 1)] ], jb_isConnected = True, jb_disk = Malformed\<rparr> = Malformed
   \<and> ya_isConnected \<lparr>ya_data = [ [(''a'', Num 1)] ], ya_isConnected = True, ya_autoSave = True, ya_disk = Malformed\<rparr>
   \<and> yb_isConnected \<lparr>yb_data = [ [(''a'', Num 1)] ], yb_isConnected = True, yb_disk = Malformed\<rparr>
   \<and> jb_isConnected \<lparr>jb_data = [ [(''a'', Num 1)] ], jb_isConnected = True, jb_disk = Malformed\<rparr>
   \<and> fst (ya_reload \<lparr>ya_data = [ [(''a'', Num 1)] ], ya_isConnected = True, ya_autoSave = True, ya_disk = Malformed\<rparr>)
       = Inl ParseError
   \<and> ya_data (snd (ya_connect \<lparr>ya_data = [ [(''a'', Num 1)] ], ya_isConnected = True, ya_autoSave = True,
        ya_disk = Malformed\<rparr>)) = []
   \<and> fst (yb_reload \<lparr>yb_data = [ [(''a'', Num 1)] ], yb_isConnected = True, yb_disk = Malformed\<rparr>) = Inl ParseError
   \<and> fst (jb_reload \<lparr>jb_data = [ [(''a'', Num 1)] ], jb_isConnected = True, jb_disk = Malformed\<rparr>) = Inl ParseError"
  using malformed_file[where
      ya = "\<lparr>ya_data = [ [(''a'', Num 1)] ], ya_isConnected = True, ya_autoSave = True, ya_disk = Malformed\<rparr>"
      and yb = "\<lparr>yb_data = [ [(''a'', Num 1)] ], yb_isConnected = True, yb_disk = Malformed\<rparr>"
      and ja = "\<lparr>ja_records = [], ja_autoSave = True, ja_disk = Malformed\<rparr>"
      and jb = "\<lparr>jb_data = [ [(''a'', Num 1)] ], jb_isConnected = True, jb_disk = Malformed\<rparr>"]
  by simp

text \<open>\<^verbatim>\<open>connect()\<close> of the JSON driver on a malformed file fails with the parse error.\<close>

theorem json_connect_malformed_counterexample:
  "ja_connect (ja_new True Malformed) = (Inl ParseError, ja_new True Malformed)
   \<and> jb_connect (jb_new Malformed) = (Inl ParseError, jb_new Malformed)
   \<and> \<not> jb_isConnected (snd (jb_connect (jb_new Malformed)))"
  by (simp add: ja_connect_def jb_connect_def ja_new_def jb_new_def)

text \<open>
  C5 (as amended). For every connected store (every store, in the first JSON version) and every
  field mapping, \<^verbatim>\<open>set\<close> appends exactly one record at the end of the collection and
  returns it. The record holds \<^verbatim>\<open>_createdAt\<close> and \<^verbatim>\<open>_updatedAt\<close>, the two clock readings
  of the call, and every other field of the input; its \<^verbatim>\<open>_id\<close> is the generated one in the
  YAML driver, the supplied one when that is truthy and the generated one otherwise in the
  second JSON version, and the supplied one, if any, in the first JSON version, which assigns none.
\<close>

theorem set_of_the_drivers:
  assumes "jb_isConnected jb" and "ya_isConnected ya" and "yb_isConnected yb" and "is_object inp"
  shows "fst (ja_set inp t1 t2 ja) = Inr (json_a_record inp t1 t2)
       \<and> ja_records (snd (ja_set inp t1 t2 ja)) = ja_records ja @ [json_a_record inp t1 t2]
       \<and> getProp (json_a_record inp t1 t2) key = spec_inserted_field None t1 t2 inp key
       \<and> fst (jb_set inp gid t1 t2 jb) = Inr (json_b_record inp gid t1 t2)
       \<and> jb_data (snd (jb_set inp gid t1 t2 jb)) = jb_data jb @ [json_b_record inp gid t1 t2]
       \<and> getProp (json_b_record inp gid t1 t2) key
           = spec_inserted_field (Some (if truthy (getProp inp ''_id'') then getProp inp ''_id'' else Str gid))
               t1 t2 inp key
       \<and> fst (ya_set inp gid t1 t2 ya) = Inr (yaml_record inp gid t1 t2)
       \<and> ya_data (snd (ya_set inp gid t1 t2 ya)) = ya_data ya @ [yaml_record inp gid t1 t2]
       \<and> fst (yb_set inp gid t1 t2 yb) = Inr (yaml_record inp gid t1 t2)
       \<and> yb_data (snd (yb_set inp gid t1 t2 yb)) = yb_data yb @ [yaml_record inp gid t1 t2]
       \<and> getProp (yaml_record inp gid t1 t2) key = spec_inserted_field (Some (Str gid)) t1 t2 inp key"
proof -
  have ja: "fst (ja_set inp t1 t2 ja) = Inr (json_a_record inp t1 t2)"
    "ja_records (snd (ja_set inp t1 t2 ja)) = ja_records ja @ [json_a_record inp t1 t2]"
    by (simp_all add: ja_set_def Let_def ja_persist_def)
  have jb: "fst (jb_set inp gid t1 t2 jb) = Inr (json_b_record inp gid t1 t2)"
    "jb_data (snd (jb_set inp gid t1 t2 jb)) = jb_data jb @ [json_b_record inp gid t1 t2]"
    using assms(1) by (simp_all add: jb_set_def Let_def jb_saveToFile_def)
  have ya: "fst (ya_set inp gid t1 t2 ya) = Inr (yaml_record inp gid t1 t2)"
    "ya_data (snd (ya_set inp gid t1 t2 ya)) = ya_data ya @ [yaml_record inp gid t1 t2]"
    using assms(2) by (simp_all add: ya_set_def Let_def ya_saveToFile_def)
  have yb: "fst (yb_set inp gid t1 t2 yb) = Inr (yaml_record inp gid t1 t2)"
    "yb_data (snd (yb_set inp gid t1 t2 yb)) = yb_data yb @ [yaml_record inp gid t1 t2]"
    using assms(3) by (simp_all add: yb_set_def Let_def)
  note f = json_a_record_field[OF assms(4), of t1 t2 key] json_b_record_field[OF assms(4), of gid t1 t2 key]
    yaml_record_field[OF assms(4), of gid t1 t2 key]
  show ?thesis
    by (intro conjI) (rule ja jb ya yb f)+
qed

theorem set_of_the_drivers_witness:
  "jb_isConnected \<lparr>jb_data = [], jb_isConnected = True, jb_disk = Missing\<rparr>
   \<and> ya_isConnected \<lparr>ya_data = [], ya_isConnected = True, ya_autoSave = True, ya_disk = Missing\<rparr>
   \<and> yb_isConnected \<lparr>yb_data = [], yb_isConnected = True, yb_disk = Missing\<rparr>
   \<and> is_object [(''name'', Str ''x''), (''_id'', Str ''mine'')]
   \<and> getProp (json_a_record [(''name'', Str ''x''), (''_id'', Str ''mine'')] ''t1'' ''t2'') ''_id'' = Str ''mine''
   \<and> getProp (json_b_record [(''name'', Str ''x''), (''_id'', Str ''mine'')] ''g'' ''t1'' ''t2'') ''_id'' = Str ''mine''
   \<and> getProp (yaml_record [(''name'', Str ''x''), (''_id'', Str ''mine'')] ''g'' ''t1'' ''t2'') ''_id'' = Str ''g''
   \<and> getProp (yaml_record [(''name'', Str ''x''), (''_id'', Str ''mine'')] ''g'' ''t1'' ''t2'') ''name'' = Str ''x''"
  using set_of_the_drivers[where
      jb = "\<lparr>jb_data = [], jb_isConnected = True, jb_disk = Missing\<rparr>"
      and ya = "\<lparr>ya_data = [], ya_isConnected = True, ya_autoSave = True, ya_disk = Missing\<rparr>"
      and yb = "\<lparr>yb_data = [], yb_isConnected = True, yb_disk = Missing\<rparr>"
      and ja = "\<lparr>ja_records = [], ja_autoSave = True, ja_disk = Missing\<rparr>"
      and inp = "[(''name'', Str ''x''), (''_id'', Str ''mine'')]"
      and gid = "''g''" and ?t1.0 = "''t1''" and ?t2.0 = "''t2''" and key = "''_id''"]
    set_of_the_drivers[where
      jb = "\<lparr>jb_data = [], jb_isConnected = True, jb_disk = Missing\<rparr>"
      and ya = "\<lparr>ya_data = [], ya_isConnected = True, ya_autoSave = True, ya_disk = Missing\<rparr>"
      and yb = "\<lparr>yb_data = [], yb_isConnected = True, yb_disk = Missing\<rparr>"
      and ja = "\<lparr>ja_records = [], ja_autoSave = True, ja_disk = Missing\<rparr>"
      and inp = "[(''name'', Str ''x''), (''_id'', Str ''mine'')]"
      and gid = "''g''" and ?t1.0 = "''t1''" and ?t2.0 = "''t2''" and key = "''name''"]
  by (simp add: is_object_def Object_keys_def spec_inserted_field_def getProp_def)

text \<open>
  The first JSON version stores a record without \<^verbatim>\<open>_id\<close>; the second keeps the \<^verbatim>\<open>_id\<close> of
  the caller; a field \<^verbatim>\<open>_createdAt\<close> of the input does not survive.
\<close>

theorem set_without_id_counterexample:
  "fst (ja_set [(''name'', Str ''x'')] ''t1'' ''t2'' (ja_new True Missing))
     = Inr [(''name'', Str ''x''), (''_createdAt'', Str ''t1''), (''_updatedAt'', Str ''t2'')]
   \<and> ''_id'' \<notin> set (Object_keys [(''name'', Str ''x''), (''_createdAt'', Str ''t1''), (''_updatedAt'', Str ''t2'')])
   \<and> getProp (json_b_record [(''_id'', Str ''mine'')] ''g'' ''t1'' ''t2'') ''_id'' = Str ''mine''
   \<and> getProp (yaml_record [(''_createdAt'', Str ''mine'')] ''g'' ''t1'' ''t2'') ''_createdAt'' \<noteq> Str ''mine''"
  by (simp add: ja_set_def ja_new_def json_a_record_def json_b_record_def yaml_record_def spread_def
        Object_entries_def Object_keys_def setProp_def getProp_def ja_persist_def Let_def)

text \<open>
  C6 (as amended). On a connected store (the first JSON version has no connection check), in
  the first JSON version and in the YAML driver of \<^verbatim>\<open>YAMLDriver.ts\<close> with \<^verbatim>\<open>autoSave\<close> on,
  and in the second JSON version always, \<^verbatim>\<open>set\<close>, \<^verbatim>\<open>update\<close> with a positive count,
  \<^verbatim>\<open>delete\<close> with a positive count and \<^verbatim>\<open>clear\<close> leave in the backing file the snapshot
  of the full collection when they return; with a zero count the file is as it was. The
  YAML driver of \<^verbatim>\<open>unnamed/part_000\<close> has no \<^verbatim>\<open>autoSave\<close>: its \<^verbatim>\<open>set\<close>, \<^verbatim>\<open>update\<close> and
  \<^verbatim>\<open>delete\<close> leave the file as it was, and its \<^verbatim>\<open>save()\<close> writes the snapshot of the
  full collection.
\<close>

theorem saving_of_the_drivers:
  assumes "ja_autoSave ja" and "jb_isConnected jb" and "ya_isConnected ya" and "ya_autoSave ya"
    and "yb_isConnected yb"
  shows "ja_disk (snd (ja_set inp t1 t2 ja)) = snapshot (ja_records (snd (ja_set inp t1 t2 ja)))
       \<and> saved_when_positive (fst (ja_update query patch now ja)) (ja_disk ja)
           (ja_records (snd (ja_update query patch now ja))) (ja_disk (snd (ja_update query patch now ja)))
       \<and> saved_when_positive (fst (ja_delete query ja)) (ja_disk ja)
           (ja_records (snd (ja_delete query ja))) (ja_disk (snd (ja_delete query ja)))
       \<and> ja_disk (snd (ja_clear ja)) = snapshot (ja_records (snd (ja_clear ja)))
       \<and> jb_disk (snd (jb_set inp gid t1 t2 jb)) = snapshot (jb_data (snd (jb_set inp gid t1 t2 jb)))
       \<and> saved_when_positive (fst (jb_update query patch now jb)) (jb_disk jb)
           (jb_data (snd (jb_update query patch now jb))) (jb_disk (snd (jb_update query patch now jb)))
       \<and> saved_when_positive (fst (jb_delete query jb)) (jb_disk jb)
           (jb_data (snd (jb_delete query jb))) (jb_disk (snd (jb_delete query jb)))
       \<and> jb_disk (snd (jb_clear jb)) = snapshot (jb_data (snd (jb_clear jb)))
       \<and> ya_disk (snd (ya_set inp gid t1 t2 ya)) = snapshot (ya_data (snd (ya_set inp gid t1 t2 ya)))
       \<and> saved_when_positive (fst (ya_update query patch now ya)) (ya_disk ya)
           (ya_data (snd (ya_update query patch now ya))) (ya_disk (snd (ya_update query patch now ya)))
       \<and> saved_when_positive (fst (ya_delete query ya)) (ya_disk ya)
           (ya_data (snd (ya_delete query ya))) (ya_disk (snd (ya_delete query ya)))
       \<and> ya_disk (snd (ya_clear ya)) = snapshot (ya_data (snd (ya_clear ya)))
       \<and> yb_disk (snd (yb_set inp gid t1 t2 yb)) = yb_disk yb
       \<and> yb_disk (snd (yb_update query patch now yb)) = yb_disk yb
       \<and> yb_disk (snd (yb_delete query yb)) = yb_disk yb
       \<and> yb_save yb = (Inr (), yb\<lparr>yb_disk := snapshot (yb_data yb)\<rparr>)"
  by (intro conjI)
     (rule ja_saves[OF assms(1)] jb_saves[OF assms(2)] ya_saves[OF assms(3,4)] yb_never_saves[OF assms(5)])+

theorem saving_of_the_drivers_witness:
  "ja_autoSave (ja_new True Missing)
   \<and> jb_isConnected (snd (jb_connect (jb_new Missing)))
   \<and> ya_isConnected (snd (ya_connect (ya_new True Missing)))
   \<and> ya_autoSave (snd (ya_connect (ya_new True Missing)))
   \<and> yb_isConnected (snd (yb_connect (yb_new Missing)))
   \<and> ya_disk (snd (ya_set [(''a'', Num 1)] ''g'' ''t1'' ''t2'' (snd (ya_connect (ya_new True Missing)))))
       = snapshot [yaml_record [(''a'', Num 1)] ''g'' ''t1'' ''t2'']
   \<and> jb_disk (snd (jb_clear (snd (jb_connect (jb_new Missing))))) = snapshot []
   \<and> yb_disk (snd (yb_set [(''a'', Num 1)] ''g'' ''t1'' ''t2'' (snd (yb_connect (yb_new Missing)))))
       = snapshot []"
  using saving_of_the_drivers[where ja = "ja_new True Missing"
      and jb = "snd (jb_connect (jb_new Missing))"
      and ya = "snd (ya_connect (ya_new True Missing))"
      and yb = "snd (yb_connect (yb_new Missing))"
      and inp = "[(''a'', Num 1)]" and gid = "''g''" and ?t1.0 = "''t1''" and ?t2.0 = "''t2''"
      and query = "[]" and patch = "[]" and now = "clock_at ''t''"]
  by (simp add: ja_new_def jb_new_def ya_new_def yb_new_def jb_connect_def ya_connect_def yb_connect_def
        jb_saveToFile_def ya_saveToFile_def yb_saveToFile_def ya_set_def jb_clear_def Let_def)

text \<open>
  The YAML driver of \<^verbatim>\<open>unnamed/part_000\<close>, connected on a missing file: after \<^verbatim>\<open>set\<close>
  the collection holds the record and the file still holds the empty snapshot.
\<close>

theorem set_without_save_counterexample:
  "yb_isConnected (snd (yb_connect (yb_new Missing)))
   \<and> fst (yb_set [(''a'', Num 1)] ''g'' ''t1'' ''t2'' (snd (yb_connect (yb_new Missing))))
       = Inr (yaml_record [(''a'', Num 1)] ''g'' ''t1'' ''t2'')
   \<and> yb_data (snd (yb_set [(''a'', Num 1)] ''g'' ''t1'' ''t2'' (snd (yb_connect (yb_new Missing)))))
       = [yaml_record [(''a'', Num 1)] ''g'' ''t1'' ''t2'']
   \<and> yb_disk (snd (yb_set [(''a'', Num 1)] ''g'' ''t1'' ''t2'' (snd (yb_connect (yb_new Missing)))))
       = snapshot []
   \<and> snapshot [] \<noteq> snapshot [yaml_record [(''a'', Num 1)] ''g'' ''t1'' ''t2'']"
  by (simp add: yb_new_def yb_connect_def yb_saveToFile_def yb_set_def Let_def snapshot_def)

text \<open>
  C7 (as amended). For every connected store and query, \<^verbatim>\<open>get(query)\<close> returns a new list of
  the matching records in storage order. The records in it are the objects that the store
  holds, not copies: an assignment to a field of a returned record changes the record at
  every position of the store that holds it.
\<close>

theorem get_returns_the_stored_objects:
  assumes "ja_records ja = deref h refs"
    and "jb_isConnected jb" and "jb_data jb = deref h refs"
    and "ya_isConnected ya" and "ya_data ya = deref h refs"
    and "yb_isConnected yb" and "yb_data yb = deref h refs"
  shows "ja_get query ja = (Inr (deref h (ja_get_refs h query refs)), ja)
       \<and> jb_get query jb = (Inr (deref h (jb_get_refs h query refs)), jb)
       \<and> ya_get query ya = (Inr (deref h (yaml_get_refs h query refs)), ya)
       \<and> yb_get query yb = (Inr (deref h (yaml_get_refs h query refs)), yb)
       \<and> ja_get_refs h query refs = filter (\<lambda>r. matches (h r) query) refs
       \<and> jb_get_refs h query refs = filter (\<lambda>r. matches (h r) query) refs
       \<and> yaml_get_refs h query refs = filter (\<lambda>r. matchesQuery (h r) query) refs
       \<and> deref (assign h r key v) refs = map (\<lambda>a. if a = r then setProp (h a) key v else h a) refs"
proof -
  have ja: "ja_get query ja = (Inr (deref h (ja_get_refs h query refs)), ja)"
    using assms(1) by (simp add: ja_get_def ja_get_refs_def deref_def filter_map comp_def)
  have jb: "jb_get query jb = (Inr (deref h (jb_get_refs h query refs)), jb)"
    using assms(2,3) by (simp add: jb_get_def jb_get_refs_def deref_def filter_map comp_def)
  have ya: "ya_get query ya = (Inr (deref h (yaml_get_refs h query refs)), ya)"
    using assms(4,5) by (simp add: ya_get_def yaml_get_refs_def deref_def filter_map comp_def)
  have yb: "yb_get query yb = (Inr (deref h (yaml_get_refs h query refs)), yb)"
    using assms(6,7) by (simp add: yb_get_def yaml_get_refs_def deref_def filter_map comp_def)
  show ?thesis
    by (intro conjI) (rule ja jb ya yb get_refs_filter deref_assign)+
qed

theorem get_returns_the_stored_objects_witness:
  "ja_records \<lparr>ja_records = [ [(''x'', Num 1)], [(''x'', Num 1)] ], ja_autoSave = True, ja_disk = Missing\<rparr>
     = deref (heap_of [ [(''x'', Num 1)], [(''x'', Num 1)] ]) [0, 1]
   \<and> jb_isConnected \<lparr>jb_data = [ [(''x'', Num 1)], [(''x'', Num 1)] ], jb_isConnected = True, jb_disk = Missing\<rparr>
   \<and> jb_data \<lparr>jb_data = [ [(''x'', Num 1)], [(''x'', Num 1)] ], jb_isConnected = True, jb_disk = Missing\<rparr>
     = deref (heap_of [ [(''x'', Num 1)], [(''x'', Num 1)] ]) [0, 1]
   \<and> ya_isConnected \<lparr>ya_data = [ [(''x'', Num 1)], [(''x'', Num 1)] ], ya_isConnected = True,
        ya_autoSave = True, ya_disk = Missing\<rparr>
   \<and> ya_data \<lparr>ya_data = [ [(''x'', Num 1)], [(''x'', Num 1)] ], ya_isConnected = True,
        ya_autoSave = True, ya_disk = Missing\<rparr> = deref (heap_of [ [(''x'', Num 1)], [(''x'', Num 1)] ]) [0, 1]
   \<and> yb_isConnected \<lparr>yb_data = [ [(''x'', Num 1)], [(''x'', Num 1)] ], yb_isConnected = True, yb_disk = Missing\<rparr>
   \<and> yb_data \<lparr>yb_data = [ [(''x'', Num 1)], [(''x'', Num 1)] ], yb_isConnected = True, yb_disk = Missing\<rparr>
     = deref (heap_of [ [(''x'', Num 1)], [(''x'', Num 1)] ]) [0, 1]
   \<and> yaml_get_refs (heap_of [ [(''x'', Num 1)], [(''x'', Num 1)] ]) [] [0, 1] = [0, 1]
   \<and> deref (assign (heap_of [ [(''x'', Num 1)], [(''x'', Num 1)] ]) 1 ''x'' (Num 2)) [0, 1] = [ [(''x'', Num 1)], [(''x'', Num 2)] ]"
  using get_returns_the_stored_objects[where
      ja = "\<lparr>ja_records = [ [(''x'', Num 1)], [(''x'', Num 1)] ], ja_autoSave = True, ja_disk = Missing\<rparr>"
      and jb = "\<lparr>jb_data = [ [(''x'', Num 1)], [(''x'', Num 1)] ], jb_isConnected = True, jb_disk = Missing\<rparr>"
      and ya = "\<lparr>ya_data = [ [(''x'', Num 1)], [(''x'', Num 1)] ], ya_isConnected = True,
        ya_autoSave = True, ya_disk = Missing\<rparr>"
      and yb = "\<lparr>yb_data = [ [(''x'', Num 1)], [(''x'', Num 1)] ], yb_isConnected = True, yb_disk = Missing\<rparr>"
      and h = "heap_of [ [(''x'', Num 1)], [(''x'', Num 1)] ]" and refs = "[0, 1]" and query = "[]" and r = 1
      and key = "''x''" and v = "Num 2"]
  by (simp add: deref_def setProp_def matchesQuery_empty matches_empty heap_of_def)

text \<open>
  A store with one record, \<^verbatim>\<open>get({})\<close>, and an assignment to the field \<^verbatim>\<open>x\<close> of the
  returned record: the record of the store has changed.
\<close>

theorem get_shares_records_counterexample:
  "ja_get_refs (heap_of [ [(''x'', Num 1)] ]) [] [0] = [0]
   \<and> jb_get_refs (heap_of [ [(''x'', Num 1)] ]) [] [0] = [0]
   \<and> yaml_get_refs (heap_of [ [(''x'', Num 1)] ]) [] [0] = [0]
   \<and> deref (heap_of [ [(''x'', Num 1)] ]) [0] = [ [(''x'', Num 1)] ]
   \<and> deref (assign (heap_of [ [(''x'', Num 1)] ]) (hd (yaml_get_refs (heap_of [ [(''x'', Num 1)] ]) [] [0])) ''x'' (Num 2)) [0]
       = [ [(''x'', Num 2)] ]"
  by (simp add: ja_get_refs_def jb_get_refs_def yaml_get_refs_def matches_def matches_obj.simps Object_keys_def
        deref_def assign_def setProp_def heap_of_def)

text \<open>
  C8 (as amended). \<^verbatim>\<open>disconnect()\<close> of the YAML driver (both versions) and of the second
  JSON version sets the instance to not connected and keeps the in-memory collection, which
  \<^verbatim>\<open>getAllData()\<close> still returns (the YAML driver of \<^verbatim>\<open>YAMLDriver.ts\<close> saves it first
  when \<^verbatim>\<open>autoSave\<close> is on). \<^verbatim>\<open>disconnect()\<close>
  of the first JSON version saves the collection and then empties it; that version has no
  connection state.
\<close>

theorem disconnect_of_the_drivers:
  "jb_disconnect jb = (Inr (), jb\<lparr>jb_isConnected := False\<rparr>)
   \<and> jb_getAllData (snd (jb_disconnect jb)) = jb_data jb
   \<and> ya_isConnected (snd (ya_disconnect ya)) = False
   \<and> ya_getAllData (snd (ya_disconnect ya)) = ya_data ya
   \<and> ya_disk (snd (ya_disconnect ya)) = (if ya_autoSave ya then snapshot (ya_data ya) else ya_disk ya)
   \<and> yb_disconnect yb = (Inr (), yb\<lparr>yb_isConnected := False\<rparr>)
   \<and> yb_getAllData (snd (yb_disconnect yb)) = yb_data yb
   \<and> ja_disconnect ja = (Inr (), ja\<lparr>ja_records := [], ja_disk := snapshot (ja_records ja)\<rparr>)"
  by (simp add: jb_disconnect_def ya_disconnect_def yb_disconnect_def ja_disconnect_def ya_saveToFile_def
        ja_persist_def jb_getAllData_def ya_getAllData_def yb_getAllData_def)

text \<open>After \<^verbatim>\<open>disconnect()\<close> the instance still holds its record, as \<^verbatim>\<open>getAllData()\<close> shows.\<close>

theorem disconnect_keeps_data_counterexample:
  "jb_getAllData (snd (jb_disconnect \<lparr>jb_data = [ [(''a'', Num 1)] ], jb_isConnected = True, jb_disk = Missing\<rparr>))
     = [ [(''a'', Num 1)] ]
   \<and> ya_getAllData (snd (ya_disconnect \<lparr>ya_data = [ [(''a'', Num 1)] ], ya_isConnected = True,
        ya_autoSave = True, ya_disk = Missing\<rparr>)) = [ [(''a'', Num 1)] ]
   \<and> yb_getAllData (snd (yb_disconnect \<lparr>yb_data = [ [(''a'', Num 1)] ], yb_isConnected = True,
        yb_disk = Missing\<rparr>)) = [ [(''a'', Num 1)] ]"
  by (simp add: jb_disconnect_def ya_disconnect_def yb_disconnect_def ya_saveToFile_def
        jb_getAllData_def ya_getAllData_def yb_getAllData_def)

text \<open>
  C9. In the YAML driver (both versions), for every connected store and every input, with or
  without a field \<^verbatim>\<open>_id\<close>, the record that \<^verbatim>\<open>set\<close> stores last and returns has the
  \<^verbatim>\<open>_id\<close> that \<^verbatim>\<open>generateId()\<close> produced in the call.
\<close>

theorem yaml_set_generates_id:
  assumes "ya_isConnected ya" and "yb_isConnected yb"
  shows "fst (ya_set inp gid t1 t2 ya) = Inr (yaml_record inp gid t1 t2)
       \<and> last (ya_data (snd (ya_set inp gid t1 t2 ya))) = yaml_record inp gid t1 t2
       \<and> fst (yb_set inp gid t1 t2 yb) = Inr (yaml_record inp gid t1 t2)
       \<and> last (yb_data (snd (yb_set inp gid t1 t2 yb))) = yaml_record inp gid t1 t2
       \<and> getProp (yaml_record inp gid t1 t2) ''_id'' = Str gid"
  using assms
  by (simp add: ya_set_def yb_set_def Let_def ya_saveToFile_def yaml_record_id)

theorem yaml_set_generates_id_witness:
  "ya_isConnected \<lparr>ya_data = [], ya_isConnected = True, ya_autoSave = False, ya_disk = Missing\<rparr>
   \<and> yb_isConnected \<lparr>yb_data = [], yb_isConnected = True, yb_disk = Missing\<rparr>
   \<and> getProp [(''_id'', Str ''mine'')] ''_id'' = Str ''mine''
   \<and> (case fst (ya_set [(''_id'', Str ''mine'')] ''g'' ''t1'' ''t2''
          \<lparr>ya_data = [], ya_isConnected = True, ya_autoSave = False, ya_disk = Missing\<rparr>) of
         Inl e \<Rightarrow> False | Inr r \<Rightarrow> getProp r ''_id'' = Str ''g'')
   \<and> (case fst (yb_set [(''_id'', Str ''mine'')] ''g'' ''t1'' ''t2''
          \<lparr>yb_data = [], yb_isConnected = True, yb_disk = Missing\<rparr>) of
         Inl e \<Rightarrow> False | Inr r \<Rightarrow> getProp r ''_id'' = Str ''g'')"
  using yaml_set_generates_id[where
      ya = "\<lparr>ya_data = [], ya_isConnected = True, ya_autoSave = False, ya_disk = Missing\<rparr>"
      and yb = "\<lparr>yb_data = [], yb_isConnected = True, yb_disk = Missing\<rparr>"
      and inp = "[(''_id'', Str ''mine'')]" and gid = "''g''" and ?t1.0 = "''t1''" and ?t2.0 = "''t2''"]
  by (simp add: getProp_def)

text \<open>
  C10. In the YAML driver (both versions), when the backing file does not exist, \<^verbatim>\<open>reload()\<close>
  on a connected instance returns without error and leaves the instance, and so its
  collection, as it was; on any instance the collection is as it was.
\<close>

theorem yaml_reload_missing_file:
  assumes "ya_disk ya = Missing" and "yb_disk yb = Missing"
  shows "(ya_isConnected ya \<longrightarrow> ya_reload ya = (Inr (), ya))
       \<and> ya_data (snd (ya_reload ya)) = ya_data ya
       \<and> (yb_isConnected yb \<longrightarrow> yb_reload yb = (Inr (), yb))
       \<and> yb_data (snd (yb_reload yb)) = yb_data yb"
  using assms by (simp add: ya_reload_def yb_reload_def)

theorem yaml_reload_missing_file_witness:
  "ya_disk \<lparr>ya_data = [ [(''a'', Num 1)] ], ya_isConnected = True, ya_autoSave = False, ya_disk = Missing\<rparr> = Missing
   \<and> yb_disk \<lparr>yb_data = [ [(''a'', Num 1)] ], yb_isConnected = True, yb_disk = Missing\<rparr> = Missing
   \<and> ya_isConnected \<lparr>ya_data = [ [(''a'', Num 1)] ], ya_isConnected = True, ya_autoSave = False, ya_disk = Missing\<rparr>
   \<and> yb_isConnected \<lparr>yb_data = [ [(''a'', Num 1)] ], yb_isConnected = True, yb_disk = Missing\<rparr>
   \<and> fst (ya_reload \<lparr>ya_data = [ [(''a'', Num 1)] ], ya_isConnected = True, ya_autoSave = False, ya_disk = Missing\<rparr>)
       = Inr ()
   \<and> ya_data (snd (ya_reload \<lparr>ya_data = [ [(''a'', Num 1)] ], ya_isConnected = True, ya_autoSave = False,
        ya_disk = Missing\<rparr>)) = [ [(''a'', Num 1)] ]
   \<and> fst (yb_reload \<lparr>yb_data = [ [(''a'', Num 1)] ], yb_isConnected = True, yb_disk = Missing\<rparr>) = Inr ()
   \<and> yb_data (snd (yb_reload \<lparr>yb_data = [ [(''a'', Num 1)] ], yb_isConnected = True, yb_disk = Missing\<rparr>))
       = [ [(''a'', Num 1)] ]"
  using yaml_reload_missing_file[where
      ya = "\<lparr>ya_data = [ [(''a'', Num 1)] ], ya_isConnected = True, ya_autoSave = False, ya_disk = Missing\<rparr>"
      and yb = "\<lparr>yb_data = [ [(''a'', Num 1)] ], yb_isConnected = True, yb_disk = Missing\<rparr>"]
  by simp

end
